theory Spec2Isabelle
  imports Main "HOL-Library.AList"
begin

section \<open>The OECD ingestion handler (handler.py)\<close>

text \<open>
  A shallow embedding of \<^verbatim>\<open>src/handler.py\<close>: the fetcher (\<^verbatim>\<open>build_oecd_urls\<close>,
  \<^verbatim>\<open>http_get\<close>, \<^verbatim>\<open>fetch_oecd\<close>), the de-duplicating archiver (\<^verbatim>\<open>put_if_new\<close>) and the
  loop and report of \<^verbatim>\<open>lambda_handler\<close>.

  Python \<^verbatim>\<open>str\<close> and \<^verbatim>\<open>bytes\<close> are both \<open>string\<close> (a list of 8-bit characters), Python
  integers are \<open>int\<close>. Everything outside the program is explicit: the network, the
  clock, the AWS services, the digest and the compressor are fields of an environment
  \<open>env\<close>; what the program has done to the outside is a \<open>world\<close> that every effectful
  function takes and returns. An exception is a value \<open>Inl e\<close>.
\<close>

subsection \<open>Strings\<close>

type_synonym bytes = string

definition digit_char :: "nat \<Rightarrow> char" where
  "digit_char d = ''0123456789'' ! d"

text \<open>\<^verbatim>\<open>str(n)\<close> of a non-negative integer, and of any integer.\<close>

fun show_nat :: "nat \<Rightarrow> string" where
  "show_nat n = (if n < 10 then [digit_char n] else show_nat (n div 10) @ [digit_char (n mod 10)])"

declare show_nat.simps [simp del]

definition show_int :: "int \<Rightarrow> string" where
  "show_int i = (if i < 0 then ''-'' @ show_nat (nat (- i)) else show_nat (nat i))"

text \<open>The \<^verbatim>\<open>%02d\<close> and \<^verbatim>\<open>%04d\<close> of the date formats: zero padding to a minimal width.\<close>

definition zero_pad :: "nat \<Rightarrow> int \<Rightarrow> string" where
  "zero_pad width i = (let s = show_int i in replicate (width - length s) CHR ''0'' @ s)"

text \<open>\<^verbatim>\<open>s.rstrip('/')\<close>\<close>

definition rstrip_slash :: "string \<Rightarrow> string" where
  "rstrip_slash s = rev (dropWhile (\<lambda>c. c = CHR ''/'') (rev s))"

text \<open>\<^verbatim>\<open>sep.join(xs)\<close>\<close>

fun join :: "string \<Rightarrow> string list \<Rightarrow> string" where
  "join sep [] = []"
| "join sep [x] = x"
| "join sep (x # y # ys) = x @ sep @ join sep (y # ys)"

subsection \<open>Exceptions\<close>

text \<open>
  An exception carries what the program reads of it: \<^verbatim>\<open>type(e).__name__\<close>, \<^verbatim>\<open>str(e)\<close> and,
  for \<^verbatim>\<open>urllib.error.HTTPError\<close>, the status \<^verbatim>\<open>e.code\<close>.
\<close>

datatype py_exn =
    HTTPError int string
  | Exn string string

fun exn_name :: "py_exn \<Rightarrow> string" where
  "exn_name (HTTPError code msg) = ''HTTPError''"
| "exn_name (Exn name msg) = name"

fun exn_str :: "py_exn \<Rightarrow> string" where
  "exn_str (HTTPError code msg) = msg"
| "exn_str (Exn name msg) = msg"

abbreviation RuntimeError :: "string \<Rightarrow> py_exn" where
  "RuntimeError msg \<equiv> Exn ''RuntimeError'' msg"

abbreviation OverflowError :: "string \<Rightarrow> py_exn" where
  "OverflowError msg \<equiv> Exn ''OverflowError'' msg"

subsection \<open>Dates (the standard library's \<^verbatim>\<open>datetime\<close>)\<close>

text \<open>
  A \<^verbatim>\<open>datetime\<close> in UTC holds its civil fields. Arithmetic with a \<^verbatim>\<open>timedelta\<close> of whole
  days goes through the proleptic Gregorian ordinal (day 1 is 0001-01-01), as
  \<^verbatim>\<open>_ymd2ord\<close> and \<^verbatim>\<open>_ord2ymd\<close> of the standard library compute it. The library is not part
  of the repository; these definitions follow its documented behaviour.
\<close>

record datetime =
  year :: int
  month :: int
  day :: int
  hour :: int
  minute :: int
  second :: int

definition is_leap :: "int \<Rightarrow> bool" where
  "is_leap y = (y mod 4 = 0 \<and> (y mod 100 \<noteq> 0 \<or> y mod 400 = 0))"

definition days_before_year :: "int \<Rightarrow> int" where
  "days_before_year y = (let p = y - 1 in p * 365 + p div 4 - p div 100 + p div 400)"

definition DAYS_IN_MONTH :: "int list" where
  "DAYS_IN_MONTH = [-1, 31, 28, 31, 30, 31, 30, 31, 31, 30, 31, 30, 31]"

definition DAYS_BEFORE_MONTH :: "int list" where
  "DAYS_BEFORE_MONTH = [-1, 0, 31, 59, 90, 120, 151, 181, 212, 243, 273, 304, 334]"

definition days_before_month :: "int \<Rightarrow> int \<Rightarrow> int" where
  "days_before_month y m = DAYS_BEFORE_MONTH ! nat m + (if m > 2 \<and> is_leap y then 1 else 0)"

definition ymd2ord :: "int \<Rightarrow> int \<Rightarrow> int \<Rightarrow> int" where
  "ymd2ord y m d = days_before_year y + days_before_month y m + d"

definition ord2ymd :: "int \<Rightarrow> int \<times> int \<times> int" where
  "ord2ymd ordinal =
    (let n = ordinal - 1;
         n400 = n div 146097; n = n mod 146097;
         y = n400 * 400 + 1;
         n100 = n div 36524; n = n mod 36524;
         n4 = n div 1461; n = n mod 1461;
         n1 = n div 365; n = n mod 365;
         y = y + n100 * 100 + n4 * 4 + n1
     in if n1 = 4 \<or> n100 = 4 then (y - 1, 12, 31)
        else
          let leapyear = (n1 = 3 \<and> (n4 \<noteq> 24 \<or> n100 = 3));
              m = (n + 50) div 32;
              preceding = DAYS_BEFORE_MONTH ! nat m + (if m > 2 \<and> leapyear then 1 else 0)
          in if preceding > n
             then let m' = m - 1;
                      preceding' = preceding - (DAYS_IN_MONTH ! nat m' + (if m' = 2 \<and> leapyear then 1 else 0))
                  in (y, m', n - preceding' + 1)
             else (y, m, n - preceding + 1))"

definition MAXORDINAL :: int where
  "MAXORDINAL = 3652059"

text \<open>
  \<^verbatim>\<open>(now - timedelta(days=d)).date()\<close>: the \<^verbatim>\<open>timedelta\<close> constructor refuses more than
  999999999 days, the subtraction refuses a result outside the years 1 to 9999; both
  raise \<^verbatim>\<open>OverflowError\<close>.
\<close>

definition date_minus_days :: "datetime \<Rightarrow> int \<Rightarrow> py_exn + (int \<times> int \<times> int)" where
  "date_minus_days now d =
    (if \<bar>d\<bar> > 999999999
     then Inl (OverflowError (''days='' @ show_int d @ ''; must have magnitude <= 999999999''))
     else let ordinal = ymd2ord (year now) (month now) (day now) - d
          in if 0 < ordinal \<and> ordinal \<le> MAXORDINAL then Inr (ord2ymd ordinal)
             else Inl (OverflowError ''date value out of range''))"

text \<open>\<^verbatim>\<open>date.isoformat()\<close>, \<^verbatim>\<open>strftime("%Y%m%d")\<close> and \<^verbatim>\<open>strftime("%Y%m%dT%H%M%SZ")\<close>.\<close>

definition isoformat :: "int \<times> int \<times> int \<Rightarrow> string" where
  "isoformat ymd = (case ymd of (y, m, d) \<Rightarrow> zero_pad 4 y @ ''-'' @ zero_pad 2 m @ ''-'' @ zero_pad 2 d)"

definition strftime_date :: "datetime \<Rightarrow> string" where
  "strftime_date t = zero_pad 4 (year t) @ zero_pad 2 (month t) @ zero_pad 2 (day t)"

definition strftime_ts :: "datetime \<Rightarrow> string" where
  "strftime_ts t = strftime_date t @ ''T'' @ zero_pad 2 (hour t) @ zero_pad 2 (minute t)
     @ zero_pad 2 (second t) @ ''Z''"

subsection \<open>The outside: environment and world\<close>

text \<open>One HTTP request ends in a body (\<^verbatim>\<open>resp.read()\<close>) or in an exception.\<close>

datatype http_outcome = Body bytes | Raises py_exn

text \<open>The arguments of \<^verbatim>\<open>S3.put_object\<close>.\<close>

record s3_request =
  Bucket :: string
  Key :: string
  Body_of :: bytes
  ContentType :: string
  Metadata :: "(string \<times> string) list"
  ExtraArgs :: "(string \<times> string) list"

text \<open>The calls of the AWS client: \<^verbatim>\<open>table.get_item\<close>, \<^verbatim>\<open>table.put_item\<close>, \<^verbatim>\<open>S3.put_object\<close>.\<close>

datatype aws_call =
    GetItem string
  | PutItem "(string \<times> string) list"
  | PutObject s3_request

text \<open>
  The environment answers every call to the outside. The answer may depend on the
  arguments and on \<open>tick\<close>, the number of calls made before: the k-th request to a URL
  need not end like the first. \<open>aws_fault\<close> says whether an AWS call raises, and what.
  \<open>sha256_hex\<close> is \<^verbatim>\<open>hashlib.sha256(data).hexdigest()\<close> and \<open>gzip_compress\<close> the gzip
  stream of level 6; the program only passes their results on.
\<close>

record env =
  urlopen :: "string \<Rightarrow> nat \<Rightarrow> http_outcome"
  utcnow :: "nat \<Rightarrow> datetime"
  aws_fault :: "aws_call \<Rightarrow> nat \<Rightarrow> py_exn option"
  sha256_hex :: "bytes \<Rightarrow> string"
  gzip_compress :: "bytes \<Rightarrow> bytes"

text \<open>
  The world: the ledger table (DynamoDB, partition key \<^verbatim>\<open>dataset\<close>; an item is its
  attribute list), the objects written to S3 (oldest first), and the logs of requested
  URLs, of sleeps (seconds) and of AWS calls made.
\<close>

type_synonym item = "(string \<times> string) list"

record world =
  table :: "string \<Rightarrow> item option"
  s3_objects :: "s3_request list"
  http_log :: "string list"
  sleep_log :: "nat list"
  aws_log :: "aws_call list"
  tick :: nat

definition clock_read :: "env \<Rightarrow> world \<Rightarrow> datetime \<times> world" where
  "clock_read env w = (utcnow env (tick w), w\<lparr>tick := Suc (tick w)\<rparr>)"

definition requested :: "string \<Rightarrow> world \<Rightarrow> world" where
  "requested url w = w\<lparr>http_log := http_log w @ [url], tick := Suc (tick w)\<rparr>"

definition urlopen_call :: "env \<Rightarrow> string \<Rightarrow> world \<Rightarrow> http_outcome \<times> world" where
  "urlopen_call env url w = (urlopen env url (tick w), requested url w)"

definition sleep :: "nat \<Rightarrow> world \<Rightarrow> world" where
  "sleep secs w = w\<lparr>sleep_log := sleep_log w @ [secs]\<rparr>"

definition called :: "aws_call \<Rightarrow> world \<Rightarrow> world" where
  "called c w = w\<lparr>aws_log := aws_log w @ [c], tick := Suc (tick w)\<rparr>"

definition get_item :: "env \<Rightarrow> string \<Rightarrow> world \<Rightarrow> (py_exn + item option) \<times> world" where
  "get_item env k w =
     (case aws_fault env (GetItem k) (tick w) of
        Some e \<Rightarrow> (Inl e, called (GetItem k) w)
      | None \<Rightarrow> (Inr (table w k), called (GetItem k) w))"

definition put_item :: "env \<Rightarrow> string \<Rightarrow> item \<Rightarrow> world \<Rightarrow> (py_exn + unit) \<times> world" where
  "put_item env k it w =
     (case aws_fault env (PutItem it) (tick w) of
        Some e \<Rightarrow> (Inl e, called (PutItem it) w)
      | None \<Rightarrow> (Inr (), called (PutItem it) (w\<lparr>table := (table w)(k \<mapsto> it)\<rparr>)))"

definition put_object :: "env \<Rightarrow> s3_request \<Rightarrow> world \<Rightarrow> (py_exn + unit) \<times> world" where
  "put_object env rq w =
     (case aws_fault env (PutObject rq) (tick w) of
        Some e \<Rightarrow> (Inl e, called (PutObject rq) w)
      | None \<Rightarrow> (Inr (), called (PutObject rq) (w\<lparr>s3_objects := s3_objects w @ [rq]\<rparr>)))"

subsection \<open>OECD fetch\<close>

definition oecd_base :: "string \<Rightarrow> string \<Rightarrow> string" where
  "oecd_base dataset_id key_path =
     ''https://stats.oecd.org/sdmx-json/data/'' @ dataset_id @ ''/'' @ key_path"

definition params_common :: "string \<Rightarrow> string" where
  "params_common fmt =
     ''detail=DataOnly&dimensionAtObservation=AllDimensions'' @
     (if fmt = ''csv'' then ''&contentType=csv&separator=comma'' else ''&contentType=json'')"

definition url_lastN :: "string \<Rightarrow> string \<Rightarrow> int \<Rightarrow> string \<Rightarrow> string" where
  "url_lastN dataset_id key_path last_n_obs fmt =
     oecd_base dataset_id key_path @ ''?'' @ params_common fmt @ ''&lastNObservations='' @ show_int last_n_obs"

definition url_start :: "string \<Rightarrow> string \<Rightarrow> string \<Rightarrow> int \<times> int \<times> int \<Rightarrow> string" where
  "url_start dataset_id key_path fmt start =
     oecd_base dataset_id key_path @ ''?'' @ params_common fmt @ ''&startPeriod='' @ isoformat start"

definition build_oecd_urls ::
  "env \<Rightarrow> string \<Rightarrow> string \<Rightarrow> int \<Rightarrow> string \<Rightarrow> world \<Rightarrow> (py_exn + string list) \<times> world" where
  "build_oecd_urls env dataset_id key_path last_n_obs fmt w =
     (case clock_read env w of (now, w1) \<Rightarrow>
        (case date_minus_days now (last_n_obs * 2) of
           Inl e \<Rightarrow> (Inl e, w1)
         | Inr start \<Rightarrow>
             (Inr [url_lastN dataset_id key_path last_n_obs fmt,
                   url_start dataset_id key_path fmt start], w1)))"

definition retries :: nat where
  "retries = 3"

definition transient_codes :: "int list" where
  "transient_codes = [429, 500, 502, 503, 504]"

text \<open>
  The loop of \<^verbatim>\<open>http_get\<close> over \<^verbatim>\<open>range(1, retries + 1)\<close>; \<open>last_err\<close> is \<open>None\<close> before the
  first failure. A response returns from the loop, a non-transient \<^verbatim>\<open>HTTPError\<close> breaks
  out of it, anything else sleeps \<^verbatim>\<open>2 * attempt\<close> seconds and goes on. After the loop
  \<^verbatim>\<open>raise last_err\<close>.
\<close>

fun http_get_loop ::
  "env \<Rightarrow> string \<Rightarrow> nat list \<Rightarrow> py_exn option \<Rightarrow> world \<Rightarrow> (py_exn + bytes) \<times> world" where
  "http_get_loop env url [] last_err w =
     (case last_err of
        Some e \<Rightarrow> (Inl e, w)
      | None \<Rightarrow> (Inl (Exn ''TypeError'' ''exceptions must derive from BaseException''), w))"
| "http_get_loop env url (attempt # rest) last_err w =
     (case urlopen_call env url w of
        (Body b, w1) \<Rightarrow> (Inr b, w1)
      | (Raises e, w1) \<Rightarrow>
          (case e of
             HTTPError code msg \<Rightarrow>
               if code \<in> set transient_codes
               then http_get_loop env url rest (Some e) (sleep (2 * attempt) w1)
               else (Inl e, w1)
           | Exn name msg \<Rightarrow> http_get_loop env url rest (Some e) (sleep (2 * attempt) w1)))"

definition http_get :: "env \<Rightarrow> string \<Rightarrow> world \<Rightarrow> (py_exn + bytes) \<times> world" where
  "http_get env url w = http_get_loop env url [1 ..< retries + 1] None w"

text \<open>
  The loop of \<^verbatim>\<open>fetch_oecd\<close> over the candidate URLs, with the accumulated error
  summaries; \<open>Inl\<close> is the end of the loop with no response accepted.
\<close>

fun fetch_loop ::
  "env \<Rightarrow> string list \<Rightarrow> string list \<Rightarrow> world \<Rightarrow> (string list + bytes \<times> string) \<times> world" where
  "fetch_loop env [] err_acc w = (Inl err_acc, w)"
| "fetch_loop env (url # urls) err_acc w =
     (case http_get env url w of
        (Inr blob, w1) \<Rightarrow>
          if blob = [] \<or> length blob < 32
          then fetch_loop env urls (err_acc @ [''Empty/short response from '' @ take 120 url]) w1
          else (Inr (blob, url), w1)
      | (Inl e, w1) \<Rightarrow> fetch_loop env urls (err_acc @ [exn_name e @ '': '' @ exn_str e]) w1)"

definition fetch_failed :: "string \<Rightarrow> string \<Rightarrow> string list \<Rightarrow> py_exn" where
  "fetch_failed dataset_id key_path err_acc =
     RuntimeError (''All OECD fetch attempts failed for '' @ dataset_id @ ''/'' @ key_path @ '': ''
                   @ join '' | '' err_acc)"

definition fetch_oecd ::
  "env \<Rightarrow> string \<Rightarrow> string \<Rightarrow> int \<Rightarrow> string \<Rightarrow> world \<Rightarrow> (py_exn + bytes \<times> string) \<times> world" where
  "fetch_oecd env dataset_id key_path last_n_obs fmt w =
     (case build_oecd_urls env dataset_id key_path last_n_obs fmt w of
        (Inl e, w1) \<Rightarrow> (Inl e, w1)
      | (Inr urls, w1) \<Rightarrow>
          (case fetch_loop env urls [] w1 of
             (Inl err_acc, w2) \<Rightarrow> (Inl (fetch_failed dataset_id key_path err_acc), w2)
           | (Inr found, w2) \<Rightarrow> (Inr found, w2)))"

subsection \<open>Storage and de-duplication\<close>

text \<open>A value of a result dictionary, and Python's truth of what \<^verbatim>\<open>dict.get\<close> returns.\<close>

datatype pyval = PBool bool | PStr string

type_synonym dict = "(string \<times> pyval) list"

fun truthy :: "pyval option \<Rightarrow> bool" where
  "truthy None = False"
| "truthy (Some (PBool b)) = b"
| "truthy (Some (PStr s)) = (s \<noteq> [])"

definition maybe_compress :: "env \<Rightarrow> bytes \<Rightarrow> bool \<Rightarrow> bytes \<times> (string \<times> string) list" where
  "maybe_compress env data do_gzip =
     (if do_gzip then (gzip_compress env data, [(''ContentEncoding'', ''gzip'')]) else (data, []))"

definition s3_key :: "string \<Rightarrow> string \<Rightarrow> datetime \<Rightarrow> string \<Rightarrow> string \<Rightarrow> string" where
  "s3_key s3_prefix dataset_id now content_hash fmt =
     rstrip_slash s3_prefix @ ''/'' @ dataset_id @ ''/'' @ strftime_date now @ ''/'' @ dataset_id
     @ ''_'' @ strftime_ts now @ ''_'' @ take 12 content_hash @ ''.''
     @ (if fmt = ''csv'' then ''csv'' else ''json'')"

definition ledger_item :: "string \<Rightarrow> string \<Rightarrow> string \<Rightarrow> string \<Rightarrow> item" where
  "ledger_item dataset_id content_hash url_used ts_str =
     [(''dataset'', dataset_id), (''last_hash'', content_hash), (''last_url'', url_used),
      (''last_run'', ts_str)]"

definition unchanged_result :: "string \<Rightarrow> string \<Rightarrow> dict" where
  "unchanged_result content_hash url_used =
     [(''stored'', PBool False), (''reason'', PStr ''unchanged''), (''hash'', PStr content_hash),
      (''url'', PStr url_used)]"

definition stored_result :: "string \<Rightarrow> string \<Rightarrow> string \<Rightarrow> dict" where
  "stored_result k content_hash url_used =
     [(''stored'', PBool True), (''s3_key'', PStr k), (''hash'', PStr content_hash),
      (''url'', PStr url_used)]"

definition archive_request ::
  "env \<Rightarrow> string \<Rightarrow> string \<Rightarrow> bytes \<Rightarrow> string \<Rightarrow> string \<Rightarrow> string \<Rightarrow> bool \<Rightarrow> datetime \<Rightarrow> s3_request" where
  "archive_request env dataset_id url_used raw s3_bucket s3_prefix fmt gzip_output now =
     (case maybe_compress env raw gzip_output of (body, extra_headers) \<Rightarrow>
        \<lparr>Bucket = s3_bucket,
         Key = s3_key s3_prefix dataset_id now (sha256_hex env raw) fmt,
         Body_of = body,
         ContentType = (if fmt = ''csv'' then ''text/csv'' else ''application/json''),
         Metadata = [(''oecd_source_url'', url_used), (''sha256'', sha256_hex env raw)],
         ExtraArgs = extra_headers\<rparr>)"

text \<open>
  The part of \<^verbatim>\<open>put_if_new\<close> after the de-duplication: the key, the compression, the
  write to S3 and the result.
\<close>

definition archive ::
  "env \<Rightarrow> string \<Rightarrow> string \<Rightarrow> bytes \<Rightarrow> string \<Rightarrow> string \<Rightarrow> string \<Rightarrow> bool \<Rightarrow> datetime \<Rightarrow> world
     \<Rightarrow> (py_exn + dict) \<times> world" where
  "archive env dataset_id url_used raw s3_bucket s3_prefix fmt gzip_output now w =
     (let rq = archive_request env dataset_id url_used raw s3_bucket s3_prefix fmt gzip_output now in
      case put_object env rq w of
        (Inl e, w1) \<Rightarrow> (Inl e, w1)
      | (Inr u, w1) \<Rightarrow> (Inr (stored_result (Key rq) (sha256_hex env raw) url_used), w1))"

text \<open>
  \<^verbatim>\<open>if ddb_table_name:\<close> is false for \<^verbatim>\<open>None\<close> and for the empty string.
  \<^verbatim>\<open>item and item.get("last_hash") == content_hash\<close> is \<open>same_hash\<close>.
\<close>

definition ledger_enabled :: "string option \<Rightarrow> bool" where
  "ledger_enabled ddb_table_name = (case ddb_table_name of None \<Rightarrow> False | Some n \<Rightarrow> n \<noteq> [])"

definition same_hash :: "item option \<Rightarrow> string \<Rightarrow> bool" where
  "same_hash it content_hash =
     (case it of None \<Rightarrow> False | Some a \<Rightarrow> a \<noteq> [] \<and> map_of a ''last_hash'' = Some content_hash)"

definition put_if_new ::
  "env \<Rightarrow> string \<Rightarrow> string \<Rightarrow> bytes \<Rightarrow> string \<Rightarrow> string \<Rightarrow> string \<Rightarrow> bool \<Rightarrow> string option \<Rightarrow> world
     \<Rightarrow> (py_exn + dict) \<times> world" where
  "put_if_new env dataset_id url_used raw s3_bucket s3_prefix fmt gzip_output ddb_table_name w =
     (let content_hash = sha256_hex env raw in
      case clock_read env w of (now, w1) \<Rightarrow>
        if ledger_enabled ddb_table_name
        then
          (case get_item env dataset_id w1 of
             (Inl e, w2) \<Rightarrow> (Inl e, w2)
           | (Inr it, w2) \<Rightarrow>
               if same_hash it content_hash
               then (Inr (unchanged_result content_hash url_used), w2)
               else
                 (case put_item env dataset_id
                         (ledger_item dataset_id content_hash url_used (strftime_ts now)) w2 of
                    (Inl e, w3) \<Rightarrow> (Inl e, w3)
                  | (Inr u, w3) \<Rightarrow>
                      archive env dataset_id url_used raw s3_bucket s3_prefix fmt gzip_output now w3))
        else archive env dataset_id url_used raw s3_bucket s3_prefix fmt gzip_output now w1)"

subsection \<open>Lambda entry\<close>

text \<open>The configuration that \<^verbatim>\<open>lambda_handler\<close> has read from the environment variables.\<close>

record config =
  s3_bucket :: string
  s3_prefix :: string
  fmt :: string
  gzip_output :: bool
  last_n_obs :: int
  ddb_table :: "string option"
  datasets :: "string list"
  keys_map :: "string \<Rightarrow> string option"

record summary =
  stored :: nat
  unchanged :: nat
  errors :: nat

record report =
  statusCode :: nat
  summary_of :: summary
  results :: "dict list"

definition error_result :: "string \<Rightarrow> py_exn \<Rightarrow> dict" where
  "error_result ds e = [(''dataset'', PStr ds), (''error'', PStr (exn_str e))]"

text \<open>The body of the loop over the datasets: one result, appended by the loop.\<close>

text \<open>\<^verbatim>\<open>keys_map.get(ds, "all")\<close>\<close>

definition key_path_of :: "config \<Rightarrow> string \<Rightarrow> string" where
  "key_path_of cfg ds = (case keys_map cfg ds of None \<Rightarrow> ''all'' | Some k \<Rightarrow> k)"

definition process_dataset :: "env \<Rightarrow> config \<Rightarrow> string \<Rightarrow> world \<Rightarrow> dict \<times> world" where
  "process_dataset env cfg ds w =
     (let key_path = key_path_of cfg ds in
      case fetch_oecd env ds key_path (last_n_obs cfg) (fmt cfg) w of
        (Inl e, w1) \<Rightarrow> (error_result ds e, w1)
      | (Inr (raw, url_used), w1) \<Rightarrow>
          (case put_if_new env ds url_used raw (s3_bucket cfg) (s3_prefix cfg) (fmt cfg)
                  (gzip_output cfg) (ddb_table cfg) w1 of
             (Inl e, w2) \<Rightarrow> (error_result ds e, w2)
           | (Inr out, w2) \<Rightarrow> (AList.update ''dataset'' (PStr ds) out, w2)))"

fun handler_loop :: "env \<Rightarrow> config \<Rightarrow> string list \<Rightarrow> dict list \<Rightarrow> world \<Rightarrow> dict list \<times> world" where
  "handler_loop env cfg [] rs w = (rs, w)"
| "handler_loop env cfg (ds # rest) rs w =
     (case process_dataset env cfg ds w of (r, w1) \<Rightarrow> handler_loop env cfg rest (rs @ [r]) w1)"

definition is_ok :: "dict \<Rightarrow> bool" where
  "is_ok r = (truthy (map_of r ''stored'') \<or> map_of r ''reason'' = Some (PStr ''unchanged''))"

definition is_err :: "dict \<Rightarrow> bool" where
  "is_err r = truthy (map_of r ''error'')"

definition make_report :: "dict list \<Rightarrow> report" where
  "make_report rs =
     (let ok = filter is_ok rs;
          errs = filter is_err rs
      in \<lparr>statusCode = (if errs = [] then 200 else 207),
          summary_of =
            \<lparr>stored = length (filter (\<lambda>r. truthy (map_of r ''stored'')) ok),
             unchanged = length (filter (\<lambda>r. map_of r ''reason'' = Some (PStr ''unchanged'')) ok),
             errors = length errs\<rparr>,
          results = rs\<rparr>)"

definition lambda_handler :: "env \<Rightarrow> config \<Rightarrow> world \<Rightarrow> report \<times> world" where
  "lambda_handler env cfg w =
     (case handler_loop env cfg (datasets cfg) [] w of (rs, w1) \<Rightarrow> (make_report rs, w1))"

subsection \<open>Notions used by the statements\<close>

text \<open>
  What the two \<^verbatim>\<open>except\<close> clauses of \<^verbatim>\<open>http_get\<close> retry: an \<^verbatim>\<open>HTTPError\<close> with one of the
  transient codes, and every exception that is not an \<^verbatim>\<open>HTTPError\<close>.
\<close>

fun retryable :: "py_exn \<Rightarrow> bool" where
  "retryable (HTTPError code msg) = (code \<in> set transient_codes)"
| "retryable (Exn name msg) = True"

text \<open>
  What \<^verbatim>\<open>fetch_oecd\<close> appends to \<^verbatim>\<open>err_acc\<close> for a candidate URL, given how \<^verbatim>\<open>http_get\<close>
  ended for it; \<open>None\<close> when the response is accepted.
\<close>

definition failed_candidate :: "string \<Rightarrow> py_exn + bytes \<Rightarrow> string option" where
  "failed_candidate url r =
     (case r of
        Inr blob \<Rightarrow>
          if blob = [] \<or> length blob < 32 then Some (''Empty/short response from '' @ take 120 url)
          else None
      | Inl e \<Rightarrow> Some (exn_name e @ '': '' @ exn_str e))"

text \<open>
  The three shapes of a result of the report: stored, unchanged, error. They are told
  apart by the keys present, as a caller of the handler would.
\<close>

definition stored_shape :: "dict \<Rightarrow> bool" where
  "stored_shape r \<longleftrightarrow>
     map_of r ''stored'' = Some (PBool True) \<and> map_of r ''s3_key'' \<noteq> None
     \<and> map_of r ''reason'' = None \<and> map_of r ''error'' = None"

definition unchanged_shape :: "dict \<Rightarrow> bool" where
  "unchanged_shape r \<longleftrightarrow>
     map_of r ''stored'' = Some (PBool False) \<and> map_of r ''reason'' = Some (PStr ''unchanged'')
     \<and> map_of r ''s3_key'' = None \<and> map_of r ''error'' = None"

definition error_shape :: "dict \<Rightarrow> bool" where
  "error_shape r \<longleftrightarrow>
     map_of r ''error'' \<noteq> None \<and> map_of r ''stored'' = None
     \<and> map_of r ''reason'' = None \<and> map_of r ''s3_key'' = None"

text \<open>A result as one of the three return paths of the loop builds it.\<close>

definition built :: "dict \<Rightarrow> bool" where
  "built r \<longleftrightarrow> (\<exists>ds e. r = error_result ds e)
                \<or> (\<exists>ds h u. r = AList.update ''dataset'' (PStr ds) (unchanged_result h u))
                \<or> (\<exists>ds k h u. r = AList.update ''dataset'' (PStr ds) (stored_result k h u))"

text \<open>No AWS call raises.\<close>

definition aws_ok :: "env \<Rightarrow> bool" where
  "aws_ok env = (\<forall>c t. aws_fault env c t = None)"

text \<open>The fields of a \<^verbatim>\<open>datetime\<close> are in their ranges.\<close>

definition valid_datetime :: "datetime \<Rightarrow> bool" where
  "valid_datetime t \<longleftrightarrow>
     1 \<le> year t \<and> year t \<le> 9999 \<and> 1 \<le> month t \<and> month t \<le> 12 \<and> 1 \<le> day t \<and> day t \<le> 31
     \<and> 0 \<le> hour t \<and> hour t \<le> 23 \<and> 0 \<le> minute t \<and> minute t \<le> 59
     \<and> 0 \<le> second t \<and> second t \<le> 59"

text \<open>
  The start of the window as the specification words it, to be compared with
  \<open>date_minus_days\<close>: now minus \<open>2 \<times> N\<close> "in date units matching the dataset's period
  granularity", that is years for an annual dataset, quarters for a quarterly one,
  months for a monthly one and days for a daily one. A step of whole months keeps the
  day of the month.
\<close>

datatype granularity = Annual | Quarterly | Monthly | Daily

definition minus_months :: "int \<times> int \<times> int \<Rightarrow> int \<Rightarrow> int \<times> int \<times> int" where
  "minus_months ymd k =
     (case ymd of (y, m, d) \<Rightarrow>
        let total = y * 12 + (m - 1) - k in (total div 12, total mod 12 + 1, d))"

definition spec_window_start :: "granularity \<Rightarrow> datetime \<Rightarrow> int \<Rightarrow> int \<times> int \<times> int" where
  "spec_window_start g now n =
     (case g of
        Annual \<Rightarrow> minus_months (year now, month now, day now) (12 * (2 * n))
      | Quarterly \<Rightarrow> minus_months (year now, month now, day now) (3 * (2 * n))
      | Monthly \<Rightarrow> minus_months (year now, month now, day now) (2 * n)
      | Daily \<Rightarrow> ord2ymd (ymd2ord (year now) (month now) (day now) - 2 * n))"

subsection \<open>Concrete inputs\<close>

text \<open>
  A world in which nothing has happened yet, a clock that stands at
  2024-01-01 00:05:59 UTC, two payloads of 35 and 40 bytes with their SHA-256 digests,
  and environments built from them. \<open>demo_sha256\<close> agrees with SHA-256 on the two
  payloads (and gives the digest of the empty input elsewhere); the demonstrations do
  not compress.
\<close>

definition w_empty :: world where
  "w_empty = \<lparr>table = Map.empty, s3_objects = [], http_log = [], sleep_log = [], aws_log = [],
              tick = 0\<rparr>"

definition demo_now :: datetime where
  "demo_now = \<lparr>year = 2024, month = 1, day = 1, hour = 0, minute = 5, second = 59\<rparr>"

definition demo_payload :: bytes where
  "demo_payload = ''LOCATION,SUBJECT,MEASURE,TIME,Value''"

definition demo_payload2 :: bytes where
  "demo_payload2 = ''LOCATION,SUBJECT,MEASURE,TIME,Value,Flag''"

definition demo_digest :: string where
  "demo_digest = ''495cf3db1fa63ef4195e5756c4b13b9c6a899c6b9118671a610df29d5d17005f''"

definition demo_digest2 :: string where
  "demo_digest2 = ''3920e3170174228f793680c805ac7eb32e75f76c93a4a543d326978fd0fef09e''"

definition demo_sha256 :: "bytes \<Rightarrow> string" where
  "demo_sha256 b =
     (if b = demo_payload then demo_digest
      else if b = demo_payload2 then demo_digest2
      else ''e3b0c44298fc1c149afbf4c8996fb92427ae41e4649b934ca495991b7852b855'')"

text \<open>Every request is answered with \<open>demo_payload\<close>, no AWS call raises.\<close>

definition demo_env :: env where
  "demo_env = \<lparr>urlopen = (\<lambda>url t. Body demo_payload), utcnow = (\<lambda>t. demo_now),
               aws_fault = (\<lambda>c t. None), sha256_hex = demo_sha256, gzip_compress = (\<lambda>b. b)\<rparr>"

text \<open>As \<open>demo_env\<close>, with the given answers of the network.\<close>

definition net_env :: "(string \<Rightarrow> nat \<Rightarrow> http_outcome) \<Rightarrow> env" where
  "net_env net = demo_env\<lparr>urlopen := net\<rparr>"

text \<open>
  Three networks: one that answers 404 to every \<^verbatim>\<open>lastNObservations\<close> request of the
  dataset MEI and \<open>demo_payload\<close> to anything else; one that answers 503 to the first
  two requests made and \<open>demo_payload\<close> afterwards; one that answers 500 to every
  request for the dataset EO and \<open>demo_payload\<close> to anything else.
\<close>

definition not_found_net :: "string \<Rightarrow> nat \<Rightarrow> http_outcome" where
  "not_found_net url t =
     (if url = url_lastN ''MEI'' ''all'' 60 ''csv''
      then Raises (HTTPError 404 ''HTTP Error 404: Not Found'') else Body demo_payload)"

definition flaky_net :: "string \<Rightarrow> nat \<Rightarrow> http_outcome" where
  "flaky_net url t =
     (if t < 2 then Raises (HTTPError 503 ''HTTP Error 503: Service Unavailable'')
      else Body demo_payload)"

definition eo_down_net :: "string \<Rightarrow> nat \<Rightarrow> http_outcome" where
  "eo_down_net url t =
     (if take 41 url = ''https://stats.oecd.org/sdmx-json/data/EO/''
      then Raises (HTTPError 500 ''HTTP Error 500: Internal Server Error'')
      else Body demo_payload)"

text \<open>As \<open>demo_env\<close>, but every \<^verbatim>\<open>S3.put_object\<close> raises.\<close>

definition s3_down_env :: env where
  "s3_down_env = demo_env\<lparr>aws_fault :=
     (\<lambda>c t. case c of PutObject rq \<Rightarrow> Some (Exn ''ClientError'' ''An error occurred (503)'')
                     | _ \<Rightarrow> None)\<rparr>"

text \<open>A configuration for the given datasets and ledger table, with no key overrides.\<close>

definition demo_cfg :: "string list \<Rightarrow> string option \<Rightarrow> config" where
  "demo_cfg dss tbl =
     \<lparr>s3_bucket = ''bucket'', s3_prefix = ''oecd/raw'', fmt = ''csv'', gzip_output = False,
      last_n_obs = 60, ddb_table = tbl, datasets = dss, keys_map = Map.empty\<rparr>"

text \<open>As \<open>demo_env\<close>, but every \<^verbatim>\<open>S3.put_object\<close> raises an exception whose message is empty.\<close>

definition s3_silent_env :: env where
  "s3_silent_env = demo_env\<lparr>aws_fault :=
     (\<lambda>c t. case c of PutObject rq \<Rightarrow> Some (Exn ''MemoryError'' [])
                     | _ \<Rightarrow> None)\<rparr>"


definition demo_stored :: "string \<Rightarrow> dict" where
  "demo_stored ds = AList.update ''dataset'' (PStr ds)
     (stored_result (s3_key ''oecd/raw'' ds demo_now demo_digest ''csv'') demo_digest
        (url_lastN ds ''all'' 60 ''csv''))"

definition demo_url :: string where
  "demo_url = url_lastN ''MEI'' ''all'' 60 ''csv''"

section \<open>Basic facts\<close>

lemma demo_env_simps:
  "urlopen demo_env u t = Body demo_payload" "utcnow demo_env t = demo_now"
  "aws_fault demo_env c t = None" "sha256_hex demo_env = demo_sha256"
  by (simp_all add: demo_env_def)

lemma ledger_enabled_simps:
  "ledger_enabled None = False" "ledger_enabled (Some n) = (n \<noteq> [])"
  by (simp_all add: ledger_enabled_def)

lemma archive_eq:
  "archive env ds url raw b p f gz now w =
     (let rq = archive_request env ds url raw b p f gz now in
      case aws_fault env (PutObject rq) (tick w) of
        Some e \<Rightarrow> (Inl e, called (PutObject rq) w)
      | None \<Rightarrow> (Inr (stored_result (Key rq) (sha256_hex env raw) url),
                 called (PutObject rq) (w\<lparr>s3_objects := s3_objects w @ [rq]\<rparr>)))"
  by (simp add: archive_def put_object_def Let_def split: option.splits)

lemma stored_result_stored: "map_of (stored_result k h u) ''stored'' = Some (PBool True)"
  by (simp add: stored_result_def)

lemma archive_request_body:
  "Body_of (archive_request env ds url raw b p f gz now) = (if gz then gzip_compress env raw else raw)"
  by (simp add: archive_request_def maybe_compress_def)

lemma put_if_new_disabled:
  "\<not> ledger_enabled t \<Longrightarrow>
   put_if_new env ds url raw b p f gz t w =
     archive env ds url raw b p f gz (utcnow env (tick w)) (w\<lparr>tick := Suc (tick w)\<rparr>)"
  by (simp add: put_if_new_def clock_read_def)

lemma put_if_new_enabled:
  "ledger_enabled t \<Longrightarrow>
   put_if_new env ds url raw b p f gz t w =
     (let h = sha256_hex env raw; now = utcnow env (tick w); w1 = w\<lparr>tick := Suc (tick w)\<rparr> in
      case aws_fault env (GetItem ds) (Suc (tick w)) of
        Some e \<Rightarrow> (Inl e, called (GetItem ds) w1)
      | None \<Rightarrow>
          if same_hash (table w ds) h then (Inr (unchanged_result h url), called (GetItem ds) w1)
          else
            (let it = ledger_item ds h url (strftime_ts now); w2 = called (GetItem ds) w1 in
             case aws_fault env (PutItem it) (Suc (Suc (tick w))) of
               Some e \<Rightarrow> (Inl e, called (PutItem it) w2)
             | None \<Rightarrow> archive env ds url raw b p f gz now
                         (called (PutItem it) (w2\<lparr>table := (table w)(ds \<mapsto> it)\<rparr>))))"
  by (simp add: put_if_new_def clock_read_def get_item_def put_item_def called_def Let_def
        split: option.splits)

lemma same_hash_iff:
  "same_hash it h \<longleftrightarrow> (\<exists>a. it = Some a \<and> map_of a ''last_hash'' = Some h)"
  by (auto simp: same_hash_def split: option.splits)

lemma ledger_item_last_hash: "map_of (ledger_item ds h url ts) ''last_hash'' = Some h"
  by (simp add: ledger_item_def)

lemma archive_request_sha256:
  "map_of (Metadata (archive_request env ds url raw b p f gz now)) ''sha256'' = Some (sha256_hex env raw)"
  by (simp add: archive_request_def maybe_compress_def)

lemma aws_okD: "aws_ok env \<Longrightarrow> aws_fault env c t = None"
  by (simp add: aws_ok_def)

lemma strftime_ts_demo: "strftime_ts demo_now = ''20240101T000559Z''"
  by code_simp

lemma s3_down_env_simps:
  "utcnow s3_down_env t = demo_now" "sha256_hex s3_down_env = demo_sha256"
  "aws_fault s3_down_env (GetItem k) t = None" "aws_fault s3_down_env (PutItem it) t = None"
  "aws_fault s3_down_env (PutObject rq) t = Some (Exn ''ClientError'' ''An error occurred (503)'')"
  by (simp_all add: s3_down_env_def demo_env_def)

lemma demo_sha256_simps:
  "demo_sha256 demo_payload = demo_digest" "demo_sha256 demo_payload2 = demo_digest2"
  by (simp_all add: demo_sha256_def demo_payload_def demo_payload2_def)

lemma demo_digest_neq: "demo_digest \<noteq> demo_digest2"
  by (simp add: demo_digest_def demo_digest2_def)

lemma w_empty_simps:
  "table w_empty k = None" "s3_objects w_empty = []" "aws_log w_empty = []" "tick w_empty = 0"
  "http_log w_empty = []" "sleep_log w_empty = []"
  by (simp_all add: w_empty_def)

lemma aws_ok_demo_env: "aws_ok demo_env"
  by (simp add: aws_ok_def demo_env_simps)

section \<open>The ledger disabled\<close>

text \<open>
  Claim C9. With the ledger disabled (\<^verbatim>\<open>DEDUPE_TABLE\<close> unset or empty), \<^verbatim>\<open>put_if_new\<close> makes
  one AWS call, the \<^verbatim>\<open>put_object\<close> of the payload (compressed when asked); it neither
  reads nor writes the ledger. Unless that call raises, the payload is archived and the
  result has \<^verbatim>\<open>stored: True\<close>, whatever the world held before: a payload archived
  earlier is archived again.
\<close>

theorem C9_ledger_disabled:
  assumes "\<not> ledger_enabled ddb_table_name"
    and "put_if_new env ds url raw b p f gz ddb_table_name w = (r, w')"
    and "rq = archive_request env ds url raw b p f gz (utcnow env (tick w))"
  shows "table w' = table w \<and> aws_log w' = aws_log w @ [PutObject rq]
       \<and> Body_of rq = (if gz then gzip_compress env raw else raw)
       \<and> (case aws_fault env (PutObject rq) (Suc (tick w)) of
            None \<Rightarrow> s3_objects w' = s3_objects w @ [rq]
                  \<and> r = Inr (stored_result (Key rq) (sha256_hex env raw) url)
                  \<and> map_of (stored_result (Key rq) (sha256_hex env raw) url) ''stored'' = Some (PBool True)
          | Some e \<Rightarrow> s3_objects w' = s3_objects w \<and> r = Inl e)"
proof (cases "aws_fault env (PutObject rq) (Suc (tick w))")
  case None
  with assms show ?thesis
    by (auto simp: put_if_new_disabled archive_eq called_def Let_def stored_result_stored archive_request_body)
next
  case (Some e)
  with assms show ?thesis
    by (auto simp: put_if_new_disabled archive_eq called_def Let_def archive_request_body)
qed

text \<open>
  Two runs in a row on the same payload, the ledger disabled: both archive it, under the
  same key (the clock of the demonstration stands still).
\<close>

theorem C9_ledger_disabled_witness:
  "\<not> ledger_enabled None \<and>
   (let rq = archive_request demo_env ''MEI'' demo_url demo_payload ''bucket'' ''oecd/raw'' ''csv'' False demo_now;
        run1 = put_if_new demo_env ''MEI'' demo_url demo_payload ''bucket'' ''oecd/raw'' ''csv'' False None w_empty;
        run2 = put_if_new demo_env ''MEI'' demo_url demo_payload ''bucket'' ''oecd/raw'' ''csv'' False None (snd run1)
    in s3_objects (snd run1) = [rq] \<and> s3_objects (snd run2) = [rq, rq]
       \<and> fst run2 = Inr (stored_result (Key rq) demo_digest demo_url)
       \<and> table (snd run2) = table w_empty
       \<and> aws_log (snd run2) = [PutObject rq, PutObject rq])"
proof -
  define rq where "rq = archive_request demo_env ''MEI'' demo_url demo_payload ''bucket'' ''oecd/raw'' ''csv'' False demo_now"
  define run1 where "run1 = put_if_new demo_env ''MEI'' demo_url demo_payload ''bucket'' ''oecd/raw'' ''csv'' False None w_empty"
  define run2 where "run2 = put_if_new demo_env ''MEI'' demo_url demo_payload ''bucket'' ''oecd/raw'' ''csv'' False None (snd run1)"
  have d: "\<not> ledger_enabled None" by (simp add: ledger_enabled_simps)
  have h: "demo_sha256 demo_payload = demo_digest" by (simp add: demo_sha256_def)
  have e: "s3_objects w_empty = []" "aws_log w_empty = []" by (simp_all add: w_empty_def)
  have 1: "put_if_new demo_env ''MEI'' demo_url demo_payload ''bucket'' ''oecd/raw'' ''csv'' False None w_empty = (fst run1, snd run1)"
    by (simp add: run1_def)
  have 2: "put_if_new demo_env ''MEI'' demo_url demo_payload ''bucket'' ''oecd/raw'' ''csv'' False None (snd run1) = (fst run2, snd run2)"
    by (simp add: run2_def)
  have r: "rq = archive_request demo_env ''MEI'' demo_url demo_payload ''bucket'' ''oecd/raw'' ''csv'' False (utcnow demo_env t)" for t
    by (simp add: rq_def demo_env_simps)
  from C9_ledger_disabled [OF d 1 r] C9_ledger_disabled [OF d 2 r]
  have "s3_objects (snd run1) = [rq] \<and> s3_objects (snd run2) = [rq, rq]
       \<and> fst run2 = Inr (stored_result (Key rq) demo_digest demo_url)
       \<and> table (snd run2) = table w_empty
       \<and> aws_log (snd run2) = [PutObject rq, PutObject rq]"
    by (simp add: demo_env_simps h e)
  then show ?thesis
    unfolding Let_def rq_def [symmetric] run1_def [symmetric] run2_def [symmetric]
    using d by simp
qed

section \<open>The ledger enabled\<close>

text \<open>
  Claim C4. With the ledger enabled and the AWS calls succeeding: if the ledger holds the
  digest of the fetched payload for the dataset, \<^verbatim>\<open>put_if_new\<close> reports "unchanged", writes
  nothing to S3 and leaves the table as it was (so the entry's \<^verbatim>\<open>last_run\<close> is not
  refreshed), its only AWS call being the \<^verbatim>\<open>get_item\<close>; if the ledger holds no entry, or
  one with another digest, exactly one object is written to S3 and the entry of the
  dataset becomes the one with the new digest.
\<close>

theorem C4_novelty:
  assumes "ledger_enabled ddb_table_name" and "aws_ok env"
    and "put_if_new env X url raw b p f gz ddb_table_name w = (r, w')"
    and "D' = sha256_hex env raw"
    and "it' = ledger_item X D' url (strftime_ts (utcnow env (tick w)))"
    and "rq = archive_request env X url raw b p f gz (utcnow env (tick w))"
  shows "((\<exists>it. table w X = Some it \<and> map_of it ''last_hash'' = Some D') \<longrightarrow>
            r = Inr (unchanged_result D' url) \<and> s3_objects w' = s3_objects w
            \<and> table w' = table w \<and> aws_log w' = aws_log w @ [GetItem X])
       \<and> ((table w X = None \<or> (\<exists>it D. table w X = Some it \<and> map_of it ''last_hash'' = Some D \<and> D \<noteq> D')) \<longrightarrow>
            r = Inr (stored_result (Key rq) D' url) \<and> s3_objects w' = s3_objects w @ [rq]
            \<and> table w' = (table w)(X \<mapsto> it') \<and> map_of it' ''last_hash'' = Some D'
            \<and> aws_log w' = aws_log w @ [GetItem X, PutItem it', PutObject rq])"
proof (rule conjI; rule impI)
  assume "\<exists>it. table w X = Some it \<and> map_of it ''last_hash'' = Some D'"
  then have "same_hash (table w X) (sha256_hex env raw)"
    using assms(4) by (simp add: same_hash_iff)
  with assms show "r = Inr (unchanged_result D' url) \<and> s3_objects w' = s3_objects w
            \<and> table w' = table w \<and> aws_log w' = aws_log w @ [GetItem X]"
    by (auto simp: put_if_new_enabled aws_okD called_def Let_def)
next
  assume "table w X = None \<or> (\<exists>it D. table w X = Some it \<and> map_of it ''last_hash'' = Some D \<and> D \<noteq> D')"
  then have "\<not> same_hash (table w X) (sha256_hex env raw)"
    using assms(4) by (auto simp: same_hash_iff)
  with assms show "r = Inr (stored_result (Key rq) D' url) \<and> s3_objects w' = s3_objects w @ [rq]
            \<and> table w' = (table w)(X \<mapsto> it') \<and> map_of it' ''last_hash'' = Some D'
            \<and> aws_log w' = aws_log w @ [GetItem X, PutItem it', PutObject rq]"
    by (auto simp: put_if_new_enabled archive_eq aws_okD called_def Let_def ledger_item_last_hash)
qed

text \<open>
  A first run on an empty ledger stores, a second run on the same payload is unchanged,
  a third run on another payload stores again and moves the entry to the new digest.
\<close>

theorem C4_novelty_witness:
  "ledger_enabled (Some ''OECDIngestState'') \<and> aws_ok demo_env
   \<and> (let it1 = ledger_item ''MEI'' demo_digest demo_url ''20240101T000559Z'';
          it3 = ledger_item ''MEI'' demo_digest2 demo_url ''20240101T000559Z'';
          rq1 = archive_request demo_env ''MEI'' demo_url demo_payload ''bucket'' ''oecd/raw'' ''csv'' False demo_now;
          rq3 = archive_request demo_env ''MEI'' demo_url demo_payload2 ''bucket'' ''oecd/raw'' ''csv'' False demo_now;
          run1 = put_if_new demo_env ''MEI'' demo_url demo_payload ''bucket'' ''oecd/raw'' ''csv'' False
                   (Some ''OECDIngestState'') w_empty;
          run2 = put_if_new demo_env ''MEI'' demo_url demo_payload ''bucket'' ''oecd/raw'' ''csv'' False
                   (Some ''OECDIngestState'') (snd run1);
          run3 = put_if_new demo_env ''MEI'' demo_url demo_payload2 ''bucket'' ''oecd/raw'' ''csv'' False
                   (Some ''OECDIngestState'') (snd run2)
      in table w_empty ''MEI'' = None
         \<and> fst run1 = Inr (stored_result (Key rq1) demo_digest demo_url)
         \<and> s3_objects (snd run1) = [rq1] \<and> table (snd run1) ''MEI'' = Some it1
         \<and> fst run2 = Inr (unchanged_result demo_digest demo_url)
         \<and> s3_objects (snd run2) = [rq1] \<and> table (snd run2) = table (snd run1)
         \<and> aws_log (snd run2) = aws_log (snd run1) @ [GetItem ''MEI'']
         \<and> fst run3 = Inr (stored_result (Key rq3) demo_digest2 demo_url)
         \<and> s3_objects (snd run3) = [rq1, rq3] \<and> table (snd run3) ''MEI'' = Some it3)"
proof -
  define it1 where "it1 = ledger_item ''MEI'' demo_digest demo_url ''20240101T000559Z''"
  define it3 where "it3 = ledger_item ''MEI'' demo_digest2 demo_url ''20240101T000559Z''"
  define rq1 where "rq1 = archive_request demo_env ''MEI'' demo_url demo_payload ''bucket'' ''oecd/raw'' ''csv'' False demo_now"
  define rq3 where "rq3 = archive_request demo_env ''MEI'' demo_url demo_payload2 ''bucket'' ''oecd/raw'' ''csv'' False demo_now"
  define run1 where "run1 = put_if_new demo_env ''MEI'' demo_url demo_payload ''bucket'' ''oecd/raw'' ''csv'' False
                   (Some ''OECDIngestState'') w_empty"
  define run2 where "run2 = put_if_new demo_env ''MEI'' demo_url demo_payload ''bucket'' ''oecd/raw'' ''csv'' False
                   (Some ''OECDIngestState'') (snd run1)"
  define run3 where "run3 = put_if_new demo_env ''MEI'' demo_url demo_payload2 ''bucket'' ''oecd/raw'' ''csv'' False
                   (Some ''OECDIngestState'') (snd run2)"
  have en: "ledger_enabled (Some ''OECDIngestState'')" by (simp add: ledger_enabled_simps)
  note ok = aws_ok_demo_env
  have 1: "put_if_new demo_env ''MEI'' demo_url demo_payload ''bucket'' ''oecd/raw'' ''csv'' False
                   (Some ''OECDIngestState'') w_empty = (fst run1, snd run1)" by (simp add: run1_def)
  have 2: "put_if_new demo_env ''MEI'' demo_url demo_payload ''bucket'' ''oecd/raw'' ''csv'' False
                   (Some ''OECDIngestState'') (snd run1) = (fst run2, snd run2)" by (simp add: run2_def)
  have 3: "put_if_new demo_env ''MEI'' demo_url demo_payload2 ''bucket'' ''oecd/raw'' ''csv'' False
                   (Some ''OECDIngestState'') (snd run2) = (fst run3, snd run3)" by (simp add: run3_def)
  have d1: "demo_digest = sha256_hex demo_env demo_payload" by (simp add: demo_env_simps demo_sha256_simps)
  have d3: "demo_digest2 = sha256_hex demo_env demo_payload2" by (simp add: demo_env_simps demo_sha256_simps)
  have i1: "it1 = ledger_item ''MEI'' demo_digest demo_url (strftime_ts (utcnow demo_env t))" for t
    by (simp add: it1_def demo_env_simps strftime_ts_demo)
  have i3: "it3 = ledger_item ''MEI'' demo_digest2 demo_url (strftime_ts (utcnow demo_env t))" for t
    by (simp add: it3_def demo_env_simps strftime_ts_demo)
  have q1: "rq1 = archive_request demo_env ''MEI'' demo_url demo_payload ''bucket'' ''oecd/raw'' ''csv'' False (utcnow demo_env t)" for t
    by (simp add: rq1_def demo_env_simps)
  have q3: "rq3 = archive_request demo_env ''MEI'' demo_url demo_payload2 ''bucket'' ''oecd/raw'' ''csv'' False (utcnow demo_env t)" for t
    by (simp add: rq3_def demo_env_simps)
  have e: "table w_empty ''MEI'' = None" by (simp add: w_empty_simps)
  from C4_novelty [OF en ok 1 d1 i1 q1] e
  have r1: "fst run1 = Inr (stored_result (Key rq1) demo_digest demo_url)"
    "s3_objects (snd run1) = [rq1]" "table (snd run1) ''MEI'' = Some it1"
    "map_of it1 ''last_hash'' = Some demo_digest"
    by (simp_all add: w_empty_simps)
  from C4_novelty [OF en ok 2 d1 i1 q1] r1
  have r2: "fst run2 = Inr (unchanged_result demo_digest demo_url)"
    "s3_objects (snd run2) = [rq1]" "table (snd run2) = table (snd run1)"
    "aws_log (snd run2) = aws_log (snd run1) @ [GetItem ''MEI'']"
    by simp_all
  have "\<exists>it D. table (snd run2) ''MEI'' = Some it \<and> map_of it ''last_hash'' = Some D \<and> D \<noteq> demo_digest2"
    using r1 r2 demo_digest_neq by simp
  with C4_novelty [OF en ok 3 d3 i3 q3] r2
  have r3: "fst run3 = Inr (stored_result (Key rq3) demo_digest2 demo_url)"
    "s3_objects (snd run3) = [rq1, rq3]" "table (snd run3) ''MEI'' = Some it3"
    by simp_all
  show ?thesis
    unfolding Let_def it1_def [symmetric] it3_def [symmetric] rq1_def [symmetric] rq3_def [symmetric]
      run1_def [symmetric] run2_def [symmetric] run3_def [symmetric]
    using en ok e r1 r2 r3 by simp
qed

section \<open>The order of the ledger write and the archive write\<close>

text \<open>
  The claim C1 as it is written fails: \<^verbatim>\<open>put_if_new\<close> writes the ledger entry before it
  calls \<^verbatim>\<open>S3.put_object\<close>. With an empty ledger and an S3 that raises, the call ends in
  the exception, nothing is archived, and the ledger holds the new digest.
\<close>

theorem C1_counterexample:
  "let res = put_if_new s3_down_env ''MEI'' demo_url demo_payload ''bucket'' ''oecd/raw'' ''csv'' False
               (Some ''OECDIngestState'') w_empty
   in fst res = Inl (Exn ''ClientError'' ''An error occurred (503)'')
      \<and> s3_objects (snd res) = []
      \<and> table w_empty ''MEI'' = None
      \<and> table (snd res) ''MEI'' = Some (ledger_item ''MEI'' demo_digest demo_url ''20240101T000559Z'')"
  by (simp add: put_if_new_enabled ledger_enabled_simps s3_down_env_simps w_empty_simps same_hash_iff
        archive_eq called_def Let_def demo_sha256_simps strftime_ts_demo)

text \<open>
  Claim C1, amended. For a novel payload, the ledger enabled and the two ledger calls
  succeeding, the AWS calls of \<^verbatim>\<open>put_if_new\<close> are \<^verbatim>\<open>get_item\<close>, \<^verbatim>\<open>put_item\<close>, \<^verbatim>\<open>put_object\<close> in
  this order: the ledger record is written first and the archive write comes after it.
  The ledger entry then carries the digest of the payload, the digest that the archive
  request carries in its metadata. If the archive write succeeds, the object is appended
  to the archive; if it raises, the archive is unchanged and the exception is raised,
  while the ledger entry stays as just written.
\<close>

theorem C1_ledger_before_archive:
  assumes "ledger_enabled ddb_table_name"
    and "\<not> same_hash (table w X) (sha256_hex env raw)"
    and "aws_fault env (GetItem X) (Suc (tick w)) = None"
    and "it = ledger_item X (sha256_hex env raw) url (strftime_ts (utcnow env (tick w)))"
    and "aws_fault env (PutItem it) (Suc (Suc (tick w))) = None"
    and "rq = archive_request env X url raw b p f gz (utcnow env (tick w))"
    and "put_if_new env X url raw b p f gz ddb_table_name w = (r, w')"
  shows "aws_log w' = aws_log w @ [GetItem X, PutItem it, PutObject rq]
       \<and> table w' = (table w)(X \<mapsto> it)
       \<and> map_of it ''last_hash'' = Some (sha256_hex env raw)
       \<and> map_of (Metadata rq) ''sha256'' = Some (sha256_hex env raw)
       \<and> (case aws_fault env (PutObject rq) (Suc (Suc (Suc (tick w)))) of
            None \<Rightarrow> s3_objects w' = s3_objects w @ [rq]
                  \<and> r = Inr (stored_result (Key rq) (sha256_hex env raw) url)
          | Some e \<Rightarrow> s3_objects w' = s3_objects w \<and> r = Inl e)"
proof (cases "aws_fault env (PutObject rq) (Suc (Suc (Suc (tick w))))")
  case None
  with assms show ?thesis
    by (auto simp: put_if_new_enabled archive_eq called_def Let_def ledger_item_last_hash archive_request_sha256)
next
  case (Some e)
  with assms show ?thesis
    by (auto simp: put_if_new_enabled archive_eq called_def Let_def ledger_item_last_hash archive_request_sha256)
qed

theorem C1_ledger_before_archive_witness:
  "ledger_enabled (Some ''OECDIngestState'')
   \<and> \<not> same_hash (table w_empty ''MEI'') (sha256_hex s3_down_env demo_payload)
   \<and> (let it = ledger_item ''MEI'' demo_digest demo_url ''20240101T000559Z'';
          rq = archive_request s3_down_env ''MEI'' demo_url demo_payload ''bucket'' ''oecd/raw'' ''csv'' False demo_now;
          res = put_if_new s3_down_env ''MEI'' demo_url demo_payload ''bucket'' ''oecd/raw'' ''csv'' False
                  (Some ''OECDIngestState'') w_empty
      in aws_log (snd res) = [GetItem ''MEI'', PutItem it, PutObject rq]
         \<and> table (snd res) = (table w_empty)(''MEI'' \<mapsto> it)
         \<and> map_of it ''last_hash'' = Some demo_digest
         \<and> s3_objects (snd res) = []
         \<and> fst res = Inl (Exn ''ClientError'' ''An error occurred (503)''))"
proof -
  define it where "it = ledger_item ''MEI'' demo_digest demo_url ''20240101T000559Z''"
  define rq where "rq = archive_request s3_down_env ''MEI'' demo_url demo_payload ''bucket'' ''oecd/raw'' ''csv'' False demo_now"
  define res where "res = put_if_new s3_down_env ''MEI'' demo_url demo_payload ''bucket'' ''oecd/raw'' ''csv'' False
                  (Some ''OECDIngestState'') w_empty"
  have en: "ledger_enabled (Some ''OECDIngestState'')" by (simp add: ledger_enabled_simps)
  have novel: "\<not> same_hash (table w_empty ''MEI'') (sha256_hex s3_down_env demo_payload)"
    by (simp add: same_hash_iff w_empty_simps)
  have g: "aws_fault s3_down_env (GetItem ''MEI'') (Suc (tick w_empty)) = None"
    by (simp add: s3_down_env_simps)
  have i: "it = ledger_item ''MEI'' (sha256_hex s3_down_env demo_payload) demo_url
                  (strftime_ts (utcnow s3_down_env (tick w_empty)))"
    by (simp add: it_def s3_down_env_simps demo_sha256_simps strftime_ts_demo)
  have p: "aws_fault s3_down_env (PutItem it) (Suc (Suc (tick w_empty))) = None"
    by (simp add: s3_down_env_simps)
  have q: "rq = archive_request s3_down_env ''MEI'' demo_url demo_payload ''bucket'' ''oecd/raw'' ''csv'' False
                  (utcnow s3_down_env (tick w_empty))"
    by (simp add: rq_def s3_down_env_simps)
  have r: "put_if_new s3_down_env ''MEI'' demo_url demo_payload ''bucket'' ''oecd/raw'' ''csv'' False
                  (Some ''OECDIngestState'') w_empty = (fst res, snd res)"
    by (simp add: res_def)
  from C1_ledger_before_archive [OF en novel g i p q r]
  have "aws_log (snd res) = [GetItem ''MEI'', PutItem it, PutObject rq]
         \<and> table (snd res) = (table w_empty)(''MEI'' \<mapsto> it)
         \<and> map_of it ''last_hash'' = Some demo_digest
         \<and> s3_objects (snd res) = []
         \<and> fst res = Inl (Exn ''ClientError'' ''An error occurred (503)'')"
    by (simp add: s3_down_env_simps w_empty_simps demo_sha256_simps)
  then show ?thesis
    unfolding Let_def it_def [symmetric] rq_def [symmetric] res_def [symmetric]
    using en novel by simp
qed

section \<open>The archive key\<close>

lemma s3_key_eq_iff:
  "s3_key p ds now h1 f = s3_key p ds now h2 f \<longleftrightarrow> take 12 h1 = take 12 h2"
  by (simp add: s3_key_def)

lemma prefix12_collision:
  fixes H :: "bytes \<Rightarrow> string"
  shows "\<exists>raw1 raw2. raw1 \<noteq> raw2 \<and> take 12 (H raw1) = take 12 (H raw2)"
proof (rule ccontr)
  assume "\<not> ?thesis"
  then have inj: "inj (\<lambda>raw. take 12 (H raw))"
    by (auto simp: inj_def)
  have "range (\<lambda>raw. take 12 (H raw)) \<subseteq> {xs. set xs \<subseteq> (UNIV::char set) \<and> length xs \<le> 12}"
    by auto
  moreover have "finite {xs. set xs \<subseteq> (UNIV::char set) \<and> length xs \<le> 12}"
    by (rule finite_lists_length_le) simp
  ultimately have "finite (range (\<lambda>raw. take 12 (H raw)))"
    by (rule finite_subset)
  then have "finite (UNIV :: bytes set)"
    using inj by (rule finite_imageD)
  then show False
    by (simp add: infinite_UNIV_listI)
qed

lemma show_nat_length: "n < 10 ^ k \<Longrightarrow> 0 < k \<Longrightarrow> length (show_nat n) \<le> k"
proof (induction n arbitrary: k rule: show_nat.induct)
  case (1 n)
  show ?case
  proof (cases "n < 10")
    case True
    then show ?thesis using "1.prems" by (subst show_nat.simps) simp
  next
    case False
    then obtain j where k: "k = Suc j" and j: "0 < j"
      using "1.prems" by (cases k; cases "k - 1") auto
    have "n div 10 < 10 ^ j" using "1.prems" k by (simp add: less_mult_imp_div_less)
    with "1.IH" False j have "length (show_nat (n div 10)) \<le> j" by simp
    then show ?thesis using False k by (subst show_nat.simps) simp
  qed
qed

lemma zero_pad_length: "0 \<le> i \<Longrightarrow> i < 10 ^ k \<Longrightarrow> 0 < k \<Longrightarrow> length (zero_pad k i) = k"
proof -
  assume a: "0 \<le> i" "i < 10 ^ k" "0 < k"
  then have "nat i < 10 ^ k" by (simp add: nat_less_iff)
  then have "length (show_nat (nat i)) \<le> k" using a by (intro show_nat_length) simp_all
  then show ?thesis using a by (simp add: zero_pad_def show_int_def Let_def)
qed

lemma strftime_lengths:
  assumes "valid_datetime t"
  shows "length (strftime_date t) = 8" "length (strftime_ts t) = 16"
proof -
  have "length (zero_pad 4 (year t)) = 4" "length (zero_pad 2 (month t)) = 2"
    "length (zero_pad 2 (day t)) = 2" "length (zero_pad 2 (hour t)) = 2"
    "length (zero_pad 2 (minute t)) = 2" "length (zero_pad 2 (second t)) = 2"
    using assms by (simp_all add: valid_datetime_def zero_pad_length)
  then show "length (strftime_date t) = 8" "length (strftime_ts t) = 16"
    by (simp_all add: strftime_date_def strftime_ts_def)
qed


lemma archive_request_key:
  "Key (archive_request env ds url raw b p f gz now) = s3_key p ds now (sha256_hex env raw) f"
  by (simp add: archive_request_def maybe_compress_def)

lemma unchanged_result_stored: "map_of (unchanged_result h u) ''stored'' = Some (PBool False)"
  by (simp add: unchanged_result_def)

lemma stored_result_key: "map_of (stored_result k h u) ''s3_key'' = Some (PStr k)"
  by (simp add: stored_result_def)

text \<open>What a call of \<^verbatim>\<open>put_if_new\<close> that returns a result has returned and done.\<close>

lemma put_if_new_Inr:
  assumes "put_if_new env ds url raw b p f gz t w = (Inr res, w')"
  shows "(res = unchanged_result (sha256_hex env raw) url \<and> s3_objects w' = s3_objects w
            \<and> table w' = table w \<and> ledger_enabled t \<and> same_hash (table w ds) (sha256_hex env raw))
       \<or> (res = stored_result (Key (archive_request env ds url raw b p f gz (utcnow env (tick w))))
                  (sha256_hex env raw) url
            \<and> s3_objects w' = s3_objects w @ [archive_request env ds url raw b p f gz (utcnow env (tick w))])"
proof (cases "ledger_enabled t")
  case True
  with assms show ?thesis
    by (auto simp: put_if_new_enabled archive_eq called_def Let_def split: option.splits if_splits)
next
  case False
  with assms show ?thesis
    by (auto simp: put_if_new_disabled archive_eq called_def Let_def split: option.splits)
qed

text \<open>
  Claim C8, amended. When \<^verbatim>\<open>put_if_new\<close> stores a payload, the key of the object written
  and the \<^verbatim>\<open>s3_key\<close> of the result are
  \<^verbatim>\<open>{prefix.rstrip('/')}/{dataset_id}/{YYYYMMDD}/{dataset_id}_{YYYYMMDDTHHMMSSZ}_{digest[:12]}.{ext}\<close>:
  the prefix without its trailing slashes, date and time from the UTC clock read at the
  start of \<^verbatim>\<open>put_if_new\<close> (8 and 16 characters), and \<^verbatim>\<open>ext\<close> is \<^verbatim>\<open>csv\<close> for the format
  \<^verbatim>\<open>csv\<close> and \<^verbatim>\<open>json\<close> otherwise. Two payloads of the same dataset archived in the same
  second under the same prefix and format have the same key exactly when their digests
  agree on the first 12 characters: they receive distinct keys when the digest prefixes
  differ.
\<close>

theorem C8_archive_key:
  assumes "put_if_new env ds url raw b p f gz t w = (Inr res, w')"
    and "truthy (map_of res ''stored'')"
    and "now = utcnow env (tick w)"
    and "k = rstrip_slash p @ ''/'' @ ds @ ''/'' @ strftime_date now @ ''/'' @ ds @ ''_''
           @ strftime_ts now @ ''_'' @ take 12 (sha256_hex env raw) @ ''.''
           @ (if f = ''csv'' then ''csv'' else ''json'')"
  shows "map_of res ''s3_key'' = Some (PStr k)
       \<and> (\<exists>rq. s3_objects w' = s3_objects w @ [rq] \<and> Key rq = k)
       \<and> (valid_datetime now \<longrightarrow> length (strftime_date now) = 8 \<and> length (strftime_ts now) = 16)
       \<and> (\<forall>raw2. (s3_key p ds now (sha256_hex env raw2) f = k)
                  = (take 12 (sha256_hex env raw2) = take 12 (sha256_hex env raw)))"
proof -
  have k: "k = s3_key p ds now (sha256_hex env raw) f"
    using assms(4) by (simp add: s3_key_def)
  from put_if_new_Inr [OF assms(1)] assms(2)
  have "res = stored_result (Key (archive_request env ds url raw b p f gz (utcnow env (tick w))))
                  (sha256_hex env raw) url
        \<and> s3_objects w' = s3_objects w @ [archive_request env ds url raw b p f gz (utcnow env (tick w))]"
    by (auto simp: unchanged_result_stored)
  then have a: "map_of res ''s3_key'' = Some (PStr k)"
    and b: "\<exists>rq. s3_objects w' = s3_objects w @ [rq] \<and> Key rq = k"
    using assms(3) k by (simp_all add: stored_result_key archive_request_key)
  have c: "valid_datetime now \<longrightarrow> length (strftime_date now) = 8 \<and> length (strftime_ts now) = 16"
    by (simp add: strftime_lengths)
  have d: "\<forall>raw2. (s3_key p ds now (sha256_hex env raw2) f = k)
                  = (take 12 (sha256_hex env raw2) = take 12 (sha256_hex env raw))"
    unfolding k by (simp add: s3_key_eq_iff)
  from a b c d show ?thesis by blast
qed

lemma strftime_date_demo: "strftime_date demo_now = ''20240101''"
  by code_simp

lemma rstrip_slash_demo: "rstrip_slash ''oecd/raw/'' = ''oecd/raw''"
  by code_simp

lemma s3_key_demo:
  "s3_key ''oecd/raw/'' ''MEI'' demo_now demo_digest ''csv''
     = ''oecd/raw/MEI/20240101/MEI_20240101T000559Z_495cf3db1fa6.csv''"
  by (simp add: s3_key_def strftime_date_demo strftime_ts_demo rstrip_slash_demo demo_digest_def)

text \<open>
  The claim C8 as it is written fails twice. A prefix that ends in a slash is not used
  as it is: with the prefix \<^verbatim>\<open>oecd/raw/\<close> the key starts \<^verbatim>\<open>oecd/raw/MEI/\<close>, not
  \<^verbatim>\<open>oecd/raw//MEI/\<close>. And no digest function whatever gives distinct keys to all
  distinct payloads: the key keeps 12 characters of the digest, of which there are
  finitely many, and there are infinitely many payloads.
\<close>

theorem C8_counterexample:
  "s3_key ''oecd/raw/'' ''MEI'' demo_now demo_digest ''csv''
     \<noteq> ''oecd/raw/'' @ ''/'' @ ''MEI'' @ ''/'' @ ''20240101'' @ ''/'' @ ''MEI'' @ ''_'' @ ''20240101T000559Z''
         @ ''_'' @ take 12 demo_digest @ ''.'' @ ''csv''
   \<and> \<not> (\<exists>H :: bytes \<Rightarrow> string. \<forall>raw1 raw2. raw1 \<noteq> raw2 \<longrightarrow>
          s3_key ''oecd/raw'' ''MEI'' demo_now (H raw1) ''csv''
            \<noteq> s3_key ''oecd/raw'' ''MEI'' demo_now (H raw2) ''csv'')"
proof (rule conjI)
  show "s3_key ''oecd/raw/'' ''MEI'' demo_now demo_digest ''csv''
     \<noteq> ''oecd/raw/'' @ ''/'' @ ''MEI'' @ ''/'' @ ''20240101'' @ ''/'' @ ''MEI'' @ ''_'' @ ''20240101T000559Z''
         @ ''_'' @ take 12 demo_digest @ ''.'' @ ''csv''"
    by (simp add: s3_key_demo)
next
  show "\<not> (\<exists>H :: bytes \<Rightarrow> string. \<forall>raw1 raw2. raw1 \<noteq> raw2 \<longrightarrow>
          s3_key ''oecd/raw'' ''MEI'' demo_now (H raw1) ''csv''
            \<noteq> s3_key ''oecd/raw'' ''MEI'' demo_now (H raw2) ''csv'')"
  proof
    assume "\<exists>H :: bytes \<Rightarrow> string. \<forall>raw1 raw2. raw1 \<noteq> raw2 \<longrightarrow>
          s3_key ''oecd/raw'' ''MEI'' demo_now (H raw1) ''csv''
            \<noteq> s3_key ''oecd/raw'' ''MEI'' demo_now (H raw2) ''csv''"
    then obtain H :: "bytes \<Rightarrow> string" where
      H: "\<And>raw1 raw2. raw1 \<noteq> raw2 \<Longrightarrow> take 12 (H raw1) \<noteq> take 12 (H raw2)"
      by (auto simp: s3_key_eq_iff)
    from prefix12_collision [of H] obtain raw1 raw2
      where "raw1 \<noteq> raw2" "take 12 (H raw1) = take 12 (H raw2)" by blast
    with H show False by blast
  qed
qed

lemma valid_demo_now: "valid_datetime demo_now"
  by (simp add: valid_datetime_def demo_now_def)

text \<open>The key of the demonstration payload under the prefix \<^verbatim>\<open>oecd/raw/\<close>.\<close>

theorem C8_archive_key_witness:
  "(let run = put_if_new demo_env ''MEI'' demo_url demo_payload ''bucket'' ''oecd/raw/'' ''csv'' False None w_empty;
        k = ''oecd/raw/MEI/20240101/MEI_20240101T000559Z_495cf3db1fa6.csv''
    in (\<exists>res. fst run = Inr res \<and> truthy (map_of res ''stored'') \<and> map_of res ''s3_key'' = Some (PStr k))
       \<and> map Key (s3_objects (snd run)) = [k]
       \<and> valid_datetime demo_now \<and> length (strftime_date demo_now) = 8 \<and> length (strftime_ts demo_now) = 16
       \<and> s3_key ''oecd/raw/'' ''MEI'' demo_now demo_digest2 ''csv'' \<noteq> k)"
proof -
  define run where "run = put_if_new demo_env ''MEI'' demo_url demo_payload ''bucket'' ''oecd/raw/'' ''csv'' False None w_empty"
  define k where "k = ''oecd/raw/MEI/20240101/MEI_20240101T000559Z_495cf3db1fa6.csv''"
  define rq where "rq = archive_request demo_env ''MEI'' demo_url demo_payload ''bucket'' ''oecd/raw/'' ''csv'' False demo_now"
  have run: "run = (Inr (stored_result (Key rq) demo_digest demo_url), snd run)"
    by (simp add: run_def rq_def put_if_new_disabled ledger_enabled_simps archive_eq demo_env_simps
          demo_sha256_simps w_empty_simps Let_def)
  have 1: "put_if_new demo_env ''MEI'' demo_url demo_payload ''bucket'' ''oecd/raw/'' ''csv'' False None w_empty
             = (Inr (stored_result (Key rq) demo_digest demo_url), snd run)"
    using run by (simp add: run_def)
  have 2: "truthy (map_of (stored_result (Key rq) demo_digest demo_url) ''stored'')"
    by (simp add: stored_result_stored)
  have 3: "demo_now = utcnow demo_env (tick w_empty)" by (simp add: demo_env_simps)
  have 4: "k = rstrip_slash ''oecd/raw/'' @ ''/'' @ ''MEI'' @ ''/'' @ strftime_date demo_now @ ''/'' @ ''MEI'' @ ''_''
           @ strftime_ts demo_now @ ''_'' @ take 12 (sha256_hex demo_env demo_payload) @ ''.''
           @ (if ''csv'' = ''csv'' then ''csv'' else ''json'')"
    by (simp add: k_def strftime_date_demo strftime_ts_demo rstrip_slash_demo demo_env_simps
          demo_sha256_simps demo_digest_def)
  have 5: "take 12 demo_digest2 \<noteq> take 12 demo_digest"
    by (simp add: demo_digest_def demo_digest2_def)
  from C8_archive_key [OF 1 2 3 4]
  have a: "map_of (stored_result (Key rq) demo_digest demo_url) ''s3_key'' = Some (PStr k)"
    and b: "\<exists>rq. s3_objects (snd run) = s3_objects w_empty @ [rq] \<and> Key rq = k"
    and c: "length (strftime_date demo_now) = 8 \<and> length (strftime_ts demo_now) = 16"
    and d: "(s3_key ''oecd/raw/'' ''MEI'' demo_now (sha256_hex demo_env demo_payload2) ''csv'' = k)
              = (take 12 (sha256_hex demo_env demo_payload2) = take 12 (sha256_hex demo_env demo_payload))"
    using valid_demo_now by blast+
  from d 5 have d': "s3_key ''oecd/raw/'' ''MEI'' demo_now demo_digest2 ''csv'' \<noteq> k"
    by (simp add: demo_env_simps demo_sha256_simps)
  from b have b': "map Key (s3_objects (snd run)) = [k]"
    by (auto simp: w_empty_simps)
  have e: "\<exists>res. fst run = Inr res \<and> truthy (map_of res ''stored'') \<and> map_of res ''s3_key'' = Some (PStr k)"
    using run 2 a by (metis fst_conv)
  show ?thesis
    unfolding Let_def run_def [symmetric] k_def [symmetric]
    using e b' c d' valid_demo_now by blast
qed

section \<open>The fetcher\<close>

lemma http_get_loop_Cons:
  "http_get_loop env url (a # rest) last_err w =
     (case urlopen env url (tick w) of
        Body b \<Rightarrow> (Inr b, requested url w)
      | Raises e \<Rightarrow>
          if retryable e then http_get_loop env url rest (Some e) (sleep (2 * a) (requested url w))
          else (Inl e, requested url w))"
  by (cases "urlopen env url (tick w)")
     (auto simp: urlopen_call_def requested_def split: py_exn.splits)

lemma attempts: "[1 ..< retries + 1] = [1, 2, 3]"
  by (simp add: retries_def upt_rec numeral_3_eq_3)

lemma requested_simps:
  "tick (requested url w) = Suc (tick w)" "http_log (requested url w) = http_log w @ [url]"
  "sleep_log (requested url w) = sleep_log w" "table (requested url w) = table w"
  "s3_objects (requested url w) = s3_objects w" "aws_log (requested url w) = aws_log w"
  by (simp_all add: requested_def)

lemma sleep_simps:
  "tick (sleep s w) = tick w" "http_log (sleep s w) = http_log w"
  "sleep_log (sleep s w) = sleep_log w @ [s]" "table (sleep s w) = table w"
  "s3_objects (sleep s w) = s3_objects w" "aws_log (sleep s w) = aws_log w"
  by (simp_all add: sleep_def)

lemma http_get_unfold:
  "http_get env url w =
    (let w1 = requested url w in
     case urlopen env url (tick w) of
       Body b \<Rightarrow> (Inr b, w1)
     | Raises e0 \<Rightarrow>
         if \<not> retryable e0 then (Inl e0, w1)
         else
           let w2 = requested url (sleep 2 w1) in
           case urlopen env url (Suc (tick w)) of
             Body b \<Rightarrow> (Inr b, w2)
           | Raises e1 \<Rightarrow>
               if \<not> retryable e1 then (Inl e1, w2)
               else
                 let w3 = requested url (sleep 4 w2) in
                 case urlopen env url (Suc (Suc (tick w))) of
                   Body b \<Rightarrow> (Inr b, w3)
                 | Raises e2 \<Rightarrow> if \<not> retryable e2 then (Inl e2, w3) else (Inl e2, sleep 6 w3))"
  unfolding http_get_def attempts
  by (simp add: http_get_loop_Cons requested_simps sleep_simps Let_def del: http_get_loop.simps(2)
        split: http_outcome.splits)


lemma two_times_upt:
  "map ((*) 2) [1..<Suc 0] = ([] :: nat list)" "map ((*) 2) [1..<Suc (Suc 0)] = [2 :: nat]"
  "map ((*) 2) [1..<Suc (Suc (Suc 0))] = [2, 4 :: nat]"
  "map ((*) 2) [1..<Suc (Suc (Suc (Suc 0)))] = [2, 4, 6 :: nat]"
  by (simp_all add: upt_rec)

lemma http_get_trace:
  assumes "http_get env url w = (r, w')"
  shows "\<exists>k. 1 \<le> k \<and> k \<le> retries
           \<and> http_log w' = http_log w @ replicate k url \<and> tick w' = tick w + k
           \<and> (\<forall>j<k - 1. \<exists>e. urlopen env url (tick w + j) = Raises e \<and> retryable e)
           \<and> (case urlopen env url (tick w + (k - 1)) of
                 Body b \<Rightarrow> r = Inr b \<and> sleep_log w' = sleep_log w @ map ((*) 2) [1..<k]
               | Raises e \<Rightarrow> r = Inl e
                    \<and> sleep_log w' = sleep_log w @ map ((*) 2) [1..<(if retryable e then Suc k else k)]
                    \<and> (retryable e \<longrightarrow> k = retries))"
proof -
  consider
    (a) b where "urlopen env url (tick w) = Body b"
  | (b) e where "urlopen env url (tick w) = Raises e" "\<not> retryable e"
  | (c) e0 b where "urlopen env url (tick w) = Raises e0" "retryable e0"
      "urlopen env url (Suc (tick w)) = Body b"
  | (d) e0 e where "urlopen env url (tick w) = Raises e0" "retryable e0"
      "urlopen env url (Suc (tick w)) = Raises e" "\<not> retryable e"
  | (e) e0 e1 where "urlopen env url (tick w) = Raises e0" "retryable e0"
      "urlopen env url (Suc (tick w)) = Raises e1" "retryable e1"
    by (cases "urlopen env url (tick w)"; cases "urlopen env url (Suc (tick w))") auto
  then show ?thesis
  proof cases
    case a
    with assms show ?thesis
      by (intro exI [of _ "Suc 0"])
         (auto simp: http_get_unfold Let_def requested_simps sleep_simps retries_def two_times_upt)
  next
    case b
    with assms show ?thesis
      by (intro exI [of _ "Suc 0"])
         (auto simp: http_get_unfold Let_def requested_simps sleep_simps retries_def two_times_upt)
  next
    case c
    with assms show ?thesis
      by (intro exI [of _ "Suc (Suc 0)"])
         (auto simp: http_get_unfold Let_def requested_simps sleep_simps retries_def two_times_upt)
  next
    case d
    with assms show ?thesis
      by (intro exI [of _ "Suc (Suc 0)"])
         (auto simp: http_get_unfold Let_def requested_simps sleep_simps retries_def two_times_upt)
  next
    case e
    with assms show ?thesis
      by (intro exI [of _ "Suc (Suc (Suc 0))"])
         (auto simp: http_get_unfold Let_def requested_simps sleep_simps retries_def two_times_upt
            less_Suc_eq split: http_outcome.splits if_splits)
  qed
qed


lemma build_oecd_urls_eq:
  "build_oecd_urls env ds kp n f w =
     (case date_minus_days (utcnow env (tick w)) (n * 2) of
        Inl e \<Rightarrow> (Inl e, w\<lparr>tick := Suc (tick w)\<rparr>)
      | Inr start \<Rightarrow> (Inr [url_lastN ds kp n f, url_start ds kp f start], w\<lparr>tick := Suc (tick w)\<rparr>))"
  by (simp add: build_oecd_urls_def clock_read_def split: sum.splits)

lemma fetch_loop_Cons:
  "fetch_loop env (url # urls) acc w =
     (case http_get env url w of (r, w1) \<Rightarrow>
        (case failed_candidate url r of
           None \<Rightarrow> (Inr (projr r, url), w1)
         | Some s \<Rightarrow> fetch_loop env urls (acc @ [s]) w1))"
  by (auto simp: failed_candidate_def split: prod.splits sum.splits)

lemma fetch_oecd_unfold:
  assumes "date_minus_days (utcnow env (tick w)) (n * 2) = Inr start"
    and "A = url_lastN ds kp n f" "B = url_start ds kp f start"
  shows "fetch_oecd env ds kp n f w =
     (case http_get env A (w\<lparr>tick := Suc (tick w)\<rparr>) of (rA, wA) \<Rightarrow>
        (case failed_candidate A rA of
           None \<Rightarrow> (Inr (projr rA, A), wA)
         | Some sA \<Rightarrow>
             (case http_get env B wA of (rB, wB) \<Rightarrow>
                (case failed_candidate B rB of
                   None \<Rightarrow> (Inr (projr rB, B), wB)
                 | Some sB \<Rightarrow> (Inl (fetch_failed ds kp [sA, sB]), wB)))))"
  using assms
  by (simp add: fetch_oecd_def build_oecd_urls_eq fetch_loop_Cons del: fetch_loop.simps(2)
        split: prod.splits option.splits)

lemma failed_candidate_simps:
  "failed_candidate url (Inl e) = Some (exn_name e @ '': '' @ exn_str e)"
  "failed_candidate url (Inr blob) =
     (if 32 \<le> length blob then None else Some (''Empty/short response from '' @ take 120 url))"
  by (auto simp: failed_candidate_def)

lemma fetch_failed_two:
  "fetch_failed ds kp [sA, sB] =
     RuntimeError (''All OECD fetch attempts failed for '' @ ds @ ''/'' @ kp @ '': '' @ sA @ '' | '' @ sB)"
  by (simp add: fetch_failed_def)

text \<open>
  Claim C6. Let A and B be the two candidate URLs, in this order. \<^verbatim>\<open>fetch_oecd\<close> accepts
  the response to A when \<^verbatim>\<open>http_get\<close> returns a body that is not empty and has at least
  32 bytes, and then does not try B. Otherwise A is a failed candidate with an error
  summary, and B is tried; its response is accepted under the same condition. If B
  fails too, \<^verbatim>\<open>fetch_oecd\<close> raises the \<^verbatim>\<open>RuntimeError\<close> whose message carries the two
  summaries, in order, joined by \<^verbatim>\<open> | \<close>. A body is rejected exactly when it is empty or
  shorter than 32 bytes; every exception of \<^verbatim>\<open>http_get\<close> is a failed candidate. Whatever
  \<^verbatim>\<open>fetch_oecd\<close> returns has at least 32 bytes and comes from A or B.
\<close>

theorem C6_fetch_accepts_first_plausible:
  assumes "date_minus_days (utcnow env (tick w)) (n * 2) = Inr start"
    and "A = url_lastN ds kp n f" and "B = url_start ds kp f start"
    and "http_get env A (w\<lparr>tick := Suc (tick w)\<rparr>) = (rA, wA)"
    and "http_get env B wA = (rB, wB)"
  shows "(\<forall>blob. rA = Inr blob \<and> 32 \<le> length blob \<longrightarrow>
            fetch_oecd env ds kp n f w = (Inr (blob, A), wA))
       \<and> (\<forall>sA blob. failed_candidate A rA = Some sA \<and> rB = Inr blob \<and> 32 \<le> length blob \<longrightarrow>
            fetch_oecd env ds kp n f w = (Inr (blob, B), wB))
       \<and> (\<forall>sA sB. failed_candidate A rA = Some sA \<and> failed_candidate B rB = Some sB \<longrightarrow>
            fetch_oecd env ds kp n f w =
              (Inl (RuntimeError (''All OECD fetch attempts failed for '' @ ds @ ''/'' @ kp @ '': ''
                                  @ sA @ '' | '' @ sB)), wB))
       \<and> (\<forall>url blob. failed_candidate url (Inr blob) =
            (if blob \<noteq> [] \<and> 32 \<le> length blob then None
             else Some (''Empty/short response from '' @ take 120 url)))
       \<and> (\<forall>url e. failed_candidate url (Inl e) = Some (exn_name e @ '': '' @ exn_str e))
       \<and> (\<forall>blob url v. fetch_oecd env ds kp n f w = (Inr (blob, url), v) \<longrightarrow>
            32 \<le> length blob \<and> (url = A \<or> url = B))"
proof -
  note u = fetch_oecd_unfold [OF assms(1,2,3), unfolded assms(4) prod.case]
  have 1: "\<forall>blob. rA = Inr blob \<and> 32 \<le> length blob \<longrightarrow>
            fetch_oecd env ds kp n f w = (Inr (blob, A), wA)"
    by (simp add: u failed_candidate_simps)
  have 2: "\<forall>sA blob. failed_candidate A rA = Some sA \<and> rB = Inr blob \<and> 32 \<le> length blob \<longrightarrow>
            fetch_oecd env ds kp n f w = (Inr (blob, B), wB)"
    using assms(5) by (simp add: u failed_candidate_simps)
  have 3: "\<forall>sA sB. failed_candidate A rA = Some sA \<and> failed_candidate B rB = Some sB \<longrightarrow>
            fetch_oecd env ds kp n f w =
              (Inl (RuntimeError (''All OECD fetch attempts failed for '' @ ds @ ''/'' @ kp @ '': ''
                                  @ sA @ '' | '' @ sB)), wB)"
    using assms(5) by (simp add: u fetch_failed_two)
  have 4: "\<forall>url blob. failed_candidate url (Inr blob) =
            (if blob \<noteq> [] \<and> 32 \<le> length blob then None
             else Some (''Empty/short response from '' @ take 120 url))"
    by (auto simp: failed_candidate_def)
  have 5: "\<forall>url e. failed_candidate url (Inl e) = Some (exn_name e @ '': '' @ exn_str e)"
    by (simp add: failed_candidate_simps)
  have 6: "\<forall>blob url v. fetch_oecd env ds kp n f w = (Inr (blob, url), v) \<longrightarrow>
            32 \<le> length blob \<and> (url = A \<or> url = B)"
    using assms(5)
    by (cases rA; cases rB)
       (auto simp: u failed_candidate_simps split: if_splits)
  from 1 2 3 4 5 6 show ?thesis by blast
qed

lemma window_demo: "date_minus_days demo_now (60 * 2) = Inr (2023, 9, 3)"
  by code_simp

lemma url_neq: "url_start ds kp f s \<noteq> url_lastN ds kp n f"
  by (simp add: url_start_def url_lastN_def)

lemma retryable_codes:
  "retryable (HTTPError code msg) = (code \<in> {429, 500, 502, 503, 504})"
  by (simp add: transient_codes_def)

lemma http_get_not_retryable:
  assumes "urlopen env url (tick w) = Raises e" and "\<not> retryable e"
  shows "http_get env url w = (Inl e, requested url w)"
  using assms by (simp add: http_get_unfold)

lemma fetch_oecd_world:
  assumes "date_minus_days (utcnow env (tick w)) (n * 2) = Inr start"
    and "A = url_lastN ds kp n f" and "B = url_start ds kp f start"
    and "http_get env A (w\<lparr>tick := Suc (tick w)\<rparr>) = (rA, wA)"
    and "failed_candidate A rA \<noteq> None"
  shows "snd (fetch_oecd env ds kp n f w) = snd (http_get env B wA)"
  using assms(4,5)
  by (auto simp: fetch_oecd_unfold [OF assms(1,2,3)] split: prod.splits option.splits)

text \<open>
  Claim C5. \<^verbatim>\<open>http_get\<close> makes k requests to the URL, with k between 1 and 3. All
  requests before the last one raised a retryable exception; after the i-th of them it
  slept \<^verbatim>\<open>2 * i\<close> seconds. The last request returned a body, which is the result; or it
  raised an exception, which is raised: a retryable one only at the third request (and
  after sleeping 6 seconds), one that is not retryable at once, without sleeping.
  Retryable are the \<^verbatim>\<open>HTTPError\<close>s with code 429, 500, 502, 503 or 504 and every
  exception that is not an \<^verbatim>\<open>HTTPError\<close>. In particular a 400 or 404 at the first request
  ends \<^verbatim>\<open>http_get\<close> after that one request; and when the incremental URL A answers 404,
  \<^verbatim>\<open>fetch_oecd\<close> requests A once and then the windowed URL B at least once.
\<close>

theorem C5_retry_and_fallback:
  assumes "http_get env url w = (r, w')"
    and "date_minus_days (utcnow env (tick v)) (n * 2) = Inr start"
    and "A = url_lastN ds kp n f" and "B = url_start ds kp f start"
    and "fetch_oecd env ds kp n f v = (r2, v2)"
  shows "(\<exists>k. 1 \<le> k \<and> k \<le> 3 \<and> http_log w' = http_log w @ replicate k url
           \<and> (\<forall>j<k - 1. \<exists>e. urlopen env url (tick w + j) = Raises e \<and> retryable e)
           \<and> (case urlopen env url (tick w + (k - 1)) of
                 Body b \<Rightarrow> r = Inr b \<and> sleep_log w' = sleep_log w @ map ((*) 2) [1..<k]
               | Raises e \<Rightarrow> r = Inl e
                    \<and> sleep_log w' = sleep_log w @ map ((*) 2) [1..<(if retryable e then Suc k else k)]
                    \<and> (retryable e \<longrightarrow> k = 3)))
       \<and> (\<forall>code msg. retryable (HTTPError code msg) = (code \<in> {429, 500, 502, 503, 504}))
       \<and> (\<forall>name msg. retryable (Exn name msg))
       \<and> (\<forall>code msg. urlopen env url (tick w) = Raises (HTTPError code msg) \<and> (code = 400 \<or> code = 404) \<longrightarrow>
            r = Inl (HTTPError code msg) \<and> http_log w' = http_log w @ [url] \<and> sleep_log w' = sleep_log w)
       \<and> (\<forall>msg. urlopen env A (Suc (tick v)) = Raises (HTTPError 404 msg) \<longrightarrow>
            (\<exists>k. 1 \<le> k \<and> http_log v2 = http_log v @ A # replicate k B))"
proof -
  from http_get_trace [OF assms(1)]
  have 1: "\<exists>k. 1 \<le> k \<and> k \<le> 3 \<and> http_log w' = http_log w @ replicate k url
           \<and> (\<forall>j<k - 1. \<exists>e. urlopen env url (tick w + j) = Raises e \<and> retryable e)
           \<and> (case urlopen env url (tick w + (k - 1)) of
                 Body b \<Rightarrow> r = Inr b \<and> sleep_log w' = sleep_log w @ map ((*) 2) [1..<k]
               | Raises e \<Rightarrow> r = Inl e
                    \<and> sleep_log w' = sleep_log w @ map ((*) 2) [1..<(if retryable e then Suc k else k)]
                    \<and> (retryable e \<longrightarrow> k = 3))"
    unfolding retries_def by blast
  have 2: "\<forall>code msg. retryable (HTTPError code msg) = (code \<in> {429, 500, 502, 503, 504})"
    by (simp add: transient_codes_def)
  have 3: "\<forall>name msg. retryable (Exn name msg)"
    by simp
  have 4: "\<forall>code msg. urlopen env url (tick w) = Raises (HTTPError code msg) \<and> (code = 400 \<or> code = 404) \<longrightarrow>
            r = Inl (HTTPError code msg) \<and> http_log w' = http_log w @ [url] \<and> sleep_log w' = sleep_log w"
  proof (intro allI impI)
    fix code msg
    assume a: "urlopen env url (tick w) = Raises (HTTPError code msg) \<and> (code = 400 \<or> code = 404)"
    then have "\<not> retryable (HTTPError code msg)" by (auto simp: transient_codes_def)
    with a assms(1) have "(r, w') = (Inl (HTTPError code msg), requested url w)"
      by (simp add: http_get_not_retryable)
    then show "r = Inl (HTTPError code msg) \<and> http_log w' = http_log w @ [url] \<and> sleep_log w' = sleep_log w"
      by (simp add: requested_simps)
  qed
  have 5: "\<forall>msg. urlopen env A (Suc (tick v)) = Raises (HTTPError 404 msg) \<longrightarrow>
            (\<exists>k. 1 \<le> k \<and> http_log v2 = http_log v @ A # replicate k B)"
  proof (intro allI impI)
    fix msg
    assume a: "urlopen env A (Suc (tick v)) = Raises (HTTPError 404 msg)"
    define v0 where "v0 = v\<lparr>tick := Suc (tick v)\<rparr>"
    have "\<not> retryable (HTTPError 404 msg)" by (simp add: transient_codes_def)
    with a have g: "http_get env A v0 = (Inl (HTTPError 404 msg), requested A v0)"
      by (simp add: http_get_not_retryable v0_def)
    have "snd (fetch_oecd env ds kp n f v) = snd (http_get env B (requested A v0))"
      using fetch_oecd_world [OF assms(2,3,4) g [unfolded v0_def]]
      by (simp add: failed_candidate_simps v0_def)
    then have v2: "http_get env B (requested A v0) = (fst (http_get env B (requested A v0)), v2)"
      using assms(5) by simp
    from http_get_trace [OF v2] obtain k where
      "1 \<le> k" "http_log v2 = http_log (requested A v0) @ replicate k B"
      by blast
    then show "\<exists>k. 1 \<le> k \<and> http_log v2 = http_log v @ A # replicate k B"
      by (auto simp: requested_simps v0_def)
  qed
  from 1 2 3 4 5 show ?thesis by blast
qed

lemma net_env_simps:
  "urlopen (net_env net) = net" "utcnow (net_env net) t = demo_now"
  "aws_fault (net_env net) c t = None" "sha256_hex (net_env net) = demo_sha256"
  by (simp_all add: net_env_def demo_env_def)

lemma not_found_net_simps:
  "not_found_net (url_lastN ''MEI'' ''all'' 60 ''csv'') t = Raises (HTTPError 404 ''HTTP Error 404: Not Found'')"
  "not_found_net (url_start ''MEI'' ''all'' ''csv'' s) t = Body demo_payload"
  by (simp_all add: not_found_net_def url_neq)

lemma flaky_net_simps:
  "flaky_net url 0 = Raises (HTTPError 503 ''HTTP Error 503: Service Unavailable'')"
  "flaky_net url (Suc 0) = Raises (HTTPError 503 ''HTTP Error 503: Service Unavailable'')"
  "flaky_net url (Suc (Suc t)) = Body demo_payload"
  by (simp_all add: flaky_net_def)

lemma demo_payload_length: "length demo_payload = 35"
  by (simp add: demo_payload_def)

text \<open>
  A network that answers 503 twice and then the payload: three requests, sleeps of 2
  and 4 seconds. A network that answers 404 to the incremental URL: one request to it,
  no sleep, and the windowed URL is requested.
\<close>

theorem C5_retry_and_fallback_witness:
  "(let A = url_lastN ''MEI'' ''all'' 60 ''csv''; B = url_start ''MEI'' ''all'' ''csv'' (2023, 9, 3);
        g = http_get (net_env flaky_net) A w_empty;
        h = http_get (net_env not_found_net) A w_empty;
        r = fetch_oecd (net_env not_found_net) ''MEI'' ''all'' 60 ''csv'' w_empty
    in date_minus_days (utcnow (net_env not_found_net) (tick w_empty)) (60 * 2) = Inr (2023, 9, 3)
       \<and> fst g = Inr demo_payload \<and> http_log (snd g) = [A, A, A] \<and> sleep_log (snd g) = [2, 4]
       \<and> fst h = Inl (HTTPError 404 ''HTTP Error 404: Not Found'')
       \<and> http_log (snd h) = [A] \<and> sleep_log (snd h) = []
       \<and> (\<exists>k. 1 \<le> k \<and> http_log (snd r) = A # replicate k B))"
proof -
  define A where "A = url_lastN ''MEI'' ''all'' 60 ''csv''"
  define B where "B = url_start ''MEI'' ''all'' ''csv'' (2023, 9, 3)"
  define g where "g = http_get (net_env flaky_net) A w_empty"
  define h where "h = http_get (net_env not_found_net) A w_empty"
  define r where "r = fetch_oecd (net_env not_found_net) ''MEI'' ''all'' 60 ''csv'' w_empty"
  have d: "date_minus_days (utcnow (net_env net) (tick w_empty)) (60 * 2) = Inr (2023, 9, 3)" for net
    by (simp only: net_env_simps window_demo)
  have g: "http_get (net_env flaky_net) A w_empty = (fst g, snd g)" by (simp add: g_def)
  have h: "http_get (net_env not_found_net) A w_empty = (fst h, snd h)" by (simp add: h_def)
  have r: "fetch_oecd (net_env not_found_net) ''MEI'' ''all'' 60 ''csv'' w_empty = (fst r, snd r)"
    by (simp add: r_def)
  have r': "fetch_oecd (net_env flaky_net) ''MEI'' ''all'' 60 ''csv'' w_empty
     = (fst (fetch_oecd (net_env flaky_net) ''MEI'' ''all'' 60 ''csv'' w_empty),
        snd (fetch_oecd (net_env flaky_net) ''MEI'' ''all'' 60 ''csv'' w_empty))"
    by simp
  note flaky = C5_retry_and_fallback [OF g d A_def B_def r']
  note nf = C5_retry_and_fallback [OF h d A_def B_def r]
  from flaky obtain k where k: "1 \<le> k" "k \<le> 3" "http_log (snd g) = http_log w_empty @ replicate k A"
    "\<forall>j<k - 1. \<exists>e. urlopen (net_env flaky_net) A (tick w_empty + j) = Raises e \<and> retryable e"
    "case urlopen (net_env flaky_net) A (tick w_empty + (k - 1)) of
         Body b \<Rightarrow> fst g = Inr b \<and> sleep_log (snd g) = sleep_log w_empty @ map ((*) 2) [1..<k]
       | Raises e \<Rightarrow> fst g = Inl e
            \<and> sleep_log (snd g) = sleep_log w_empty @ map ((*) 2) [1..<(if retryable e then Suc k else k)]
            \<and> (retryable e \<longrightarrow> k = 3)"
    by blast
  from k(1,2) have "k = Suc 0 \<or> k = Suc (Suc 0) \<or> k = Suc (Suc (Suc 0))" by arith
  then have k3: "k = Suc (Suc (Suc 0))"
    using k(5) by (auto simp: net_env_simps flaky_net_simps w_empty_simps transient_codes_def)
  have gfacts: "fst g = Inr demo_payload \<and> http_log (snd g) = [A, A, A] \<and> sleep_log (snd g) = [2, 4]"
    using k(3,5) unfolding k3
    by (simp add: net_env_simps flaky_net_simps w_empty_simps two_times_upt)
  from nf have hfacts: "fst h = Inl (HTTPError 404 ''HTTP Error 404: Not Found'')
       \<and> http_log (snd h) = [A] \<and> sleep_log (snd h) = []"
    by (simp add: net_env_simps not_found_net_simps w_empty_simps A_def)
  from nf have rfacts: "\<exists>k. 1 \<le> k \<and> http_log (snd r) = A # replicate k B"
    by (simp add: net_env_simps not_found_net_simps w_empty_simps A_def)
  show ?thesis
    unfolding Let_def A_def [symmetric] B_def [symmetric] g_def [symmetric] h_def [symmetric]
      r_def [symmetric]
    using d gfacts hfacts rfacts by blast
qed

lemma eo_down_net_simps:
  "eo_down_net (url_lastN ''EO'' kp n f) t = Raises (HTTPError 500 ''HTTP Error 500: Internal Server Error'')"
  "eo_down_net (url_start ''EO'' kp f s) t = Raises (HTTPError 500 ''HTTP Error 500: Internal Server Error'')"
  "eo_down_net (url_lastN ''MEI'' kp n f) t = Body demo_payload"
  by (simp_all add: eo_down_net_def url_lastN_def url_start_def oecd_base_def)

lemma http_get_Body:
  "urlopen env url (tick w) = Body b \<Longrightarrow> http_get env url w = (Inr b, requested url w)"
  by (simp add: http_get_unfold)

lemma http_get_all_retryable:
  assumes "urlopen env url (tick w) = Raises e0" "retryable e0"
    and "urlopen env url (Suc (tick w)) = Raises e1" "retryable e1"
    and "urlopen env url (Suc (Suc (tick w))) = Raises e2" "retryable e2"
  shows "http_get env url w =
     (Inl e2, sleep 6 (requested url (sleep 4 (requested url (sleep 2 (requested url w))))))"
  using assms by (simp add: http_get_unfold Let_def requested_simps sleep_simps)

text \<open>
  Three fetches: the incremental URL answers 404 and the windowed one is accepted; both
  URLs answer 500 at every attempt and the fetch fails with both summaries; the
  incremental URL is accepted at once.
\<close>

theorem C6_fetch_accepts_first_plausible_witness:
  "fst (fetch_oecd (net_env not_found_net) ''MEI'' ''all'' 60 ''csv'' w_empty)
     = Inr (demo_payload, url_start ''MEI'' ''all'' ''csv'' (2023, 9, 3))
   \<and> fst (fetch_oecd (net_env eo_down_net) ''EO'' ''all'' 60 ''csv'' w_empty)
     = Inl (RuntimeError ''All OECD fetch attempts failed for EO/all: HTTPError: HTTP Error 500: Internal Server Error | HTTPError: HTTP Error 500: Internal Server Error'')
   \<and> fst (fetch_oecd (net_env eo_down_net) ''MEI'' ''all'' 60 ''csv'' w_empty)
     = Inr (demo_payload, url_lastN ''MEI'' ''all'' 60 ''csv'')
   \<and> 32 \<le> length demo_payload"
proof -
  have d: "date_minus_days (utcnow (net_env net) (tick w_empty)) (60 * 2) = Inr (2023, 9, 3)" for net
    by (simp only: net_env_simps window_demo)
  define w0 where "w0 = w_empty\<lparr>tick := Suc (tick w_empty)\<rparr>"
  define e404 where "e404 = HTTPError 404 ''HTTP Error 404: Not Found''"
  define e500 where "e500 = HTTPError 500 ''HTTP Error 500: Internal Server Error''"
  have len: "32 \<le> length demo_payload" by (simp add: demo_payload_length)
  have nr: "\<not> retryable e404" and rt: "retryable e500"
    by (simp_all add: e404_def e500_def transient_codes_def)
  \<comment> \<open>the incremental URL answers 404, the windowed URL is accepted\<close>
  define A where "A = url_lastN ''MEI'' ''all'' 60 ''csv''"
  define B where "B = url_start ''MEI'' ''all'' ''csv'' (2023, 9, 3)"
  have a1: "http_get (net_env not_found_net) A w0 = (Inl e404, requested A w0)"
    using nr by (intro http_get_not_retryable) (simp_all add: net_env_simps not_found_net_simps A_def e404_def)
  have b1: "http_get (net_env not_found_net) B (requested A w0) = (Inr demo_payload, requested B (requested A w0))"
    by (intro http_get_Body) (simp add: net_env_simps not_found_net_simps B_def)
  from C6_fetch_accepts_first_plausible [OF d A_def B_def a1 [unfolded w0_def] b1 [unfolded w0_def]] len
  have 1: "fst (fetch_oecd (net_env not_found_net) ''MEI'' ''all'' 60 ''csv'' w_empty) = Inr (demo_payload, B)"
    by (simp add: failed_candidate_simps)
  \<comment> \<open>both URLs answer 500 three times\<close>
  define A' where "A' = url_lastN ''EO'' ''all'' 60 ''csv''"
  define B' where "B' = url_start ''EO'' ''all'' ''csv'' (2023, 9, 3)"
  define wA where "wA = sleep 6 (requested A' (sleep 4 (requested A' (sleep 2 (requested A' w0)))))"
  define wB where "wB = sleep 6 (requested B' (sleep 4 (requested B' (sleep 2 (requested B' wA)))))"
  have a2: "http_get (net_env eo_down_net) A' w0 = (Inl e500, wA)"
    unfolding wA_def e500_def
    apply (intro http_get_all_retryable)
    apply (simp_all add: net_env_simps eo_down_net_simps A'_def)
    apply (simp_all add: transient_codes_def)
    done
  have b2: "http_get (net_env eo_down_net) B' wA = (Inl e500, wB)"
    unfolding wB_def e500_def
    apply (intro http_get_all_retryable)
    apply (simp_all add: net_env_simps eo_down_net_simps B'_def)
    apply (simp_all add: transient_codes_def)
    done
  from C6_fetch_accepts_first_plausible [OF d A'_def B'_def a2 [unfolded w0_def] b2]
  have 2: "fst (fetch_oecd (net_env eo_down_net) ''EO'' ''all'' 60 ''csv'' w_empty)
     = Inl (RuntimeError ''All OECD fetch attempts failed for EO/all: HTTPError: HTTP Error 500: Internal Server Error | HTTPError: HTTP Error 500: Internal Server Error'')"
    by (simp add: failed_candidate_simps e500_def)
  \<comment> \<open>the incremental URL is accepted at once\<close>
  have a3: "http_get (net_env eo_down_net) A w0 = (Inr demo_payload, requested A w0)"
    by (intro http_get_Body) (simp add: net_env_simps eo_down_net_simps A_def)
  have b3: "http_get (net_env eo_down_net) B (requested A w0)
     = (fst (http_get (net_env eo_down_net) B (requested A w0)), snd (http_get (net_env eo_down_net) B (requested A w0)))"
    by simp
  from C6_fetch_accepts_first_plausible [OF d A_def B_def a3 [unfolded w0_def] b3 [unfolded w0_def]] len
  have 3: "fst (fetch_oecd (net_env eo_down_net) ''MEI'' ''all'' 60 ''csv'' w_empty) = Inr (demo_payload, A)"
    by simp
  from 1 2 3 len show ?thesis
    unfolding A_def B_def by blast
qed

section \<open>The window of the fallback URL\<close>

lemma spec_monthly_demo: "spec_window_start Monthly demo_now 60 = (2014, 1, 1)"
  by code_simp

lemma window_demo_120: "date_minus_days demo_now 120 = Inr (2023, 9, 3)"
  using window_demo by simp

lemma isoformat_demo: "isoformat (2023, 9, 3) = ''2023-09-03''" "isoformat (2014, 1, 1) = ''2014-01-01''"
  by code_simp+

lemma url_start_inj: "url_start ds kp f s = url_start ds kp f s' \<longleftrightarrow> isoformat s = isoformat s'"
  by (simp add: url_start_def)

lemma div_decomp:
  fixes d q r :: int
  assumes "0 \<le> r" "r < d"
  shows "(d * q + r) div d = q"
proof -
  have "d \<noteq> 0" using assms by simp
  then have "(r + d * q) div d = q + r div d" by (rule div_mult_self2)
  moreover have "r div d = 0" using assms by (simp add: div_pos_pos_trivial)
  ultimately show ?thesis by (simp add: add.commute)
qed

lemma mod_decomp_zero:
  fixes d q r :: int
  assumes "0 < r" "r \<le> d"
  shows "((d * q + r) mod d = 0) = (r = d)"
proof (cases "r = d")
  case True
  then show ?thesis by simp
next
  case False
  with assms have "r mod d = r" by (simp add: mod_pos_pos_trivial)
  with assms False show ?thesis by simp
qed

lemma days_before_year_decomp:
  fixes a b c e :: int
  assumes "0 \<le> b" "b \<le> 3" "0 \<le> c" "c \<le> 24" "0 \<le> e" "e \<le> 3"
  shows "days_before_year (400 * a + 100 * b + 4 * c + e + 1)
           = 146097 * a + 36524 * b + 1461 * c + 365 * e"
proof -
  define p where "p = 400 * a + 100 * b + 4 * c + e"
  have "p = 4 * (100 * a + 25 * b + c) + e" by (simp add: p_def)
  then have 4: "p div 4 = 100 * a + 25 * b + c"
    using assms div_decomp [of e 4 "100 * a + 25 * b + c"] by simp
  have "p = 100 * (4 * a + b) + (4 * c + e)" by (simp add: p_def)
  then have 100: "p div 100 = 4 * a + b"
    using assms div_decomp [of "4 * c + e" 100 "4 * a + b"] by simp
  have "p = 400 * a + (100 * b + 4 * c + e)" by (simp add: p_def)
  then have 400: "p div 400 = a"
    using assms div_decomp [of "100 * b + 4 * c + e" 400 a] by simp
  have "days_before_year (p + 1) = p * 365 + p div 4 - p div 100 + p div 400"
    by (simp add: days_before_year_def Let_def)
  also have "\<dots> = 146097 * a + 36524 * b + 1461 * c + 365 * e"
    unfolding 4 100 400 by (simp add: p_def)
  finally show ?thesis by (simp add: p_def)
qed

lemma is_leap_decomp:
  fixes a b c e :: int
  assumes "0 \<le> b" "b \<le> 3" "0 \<le> c" "c \<le> 24" "0 \<le> e" "e \<le> 3"
  shows "is_leap (400 * a + 100 * b + 4 * c + e + 1) = (e = 3 \<and> (c \<noteq> 24 \<or> b = 3))"
proof -
  define y where "y = 400 * a + 100 * b + 4 * c + e + 1"
  have "y = 4 * (100 * a + 25 * b + c) + (e + 1)" by (simp add: y_def)
  then have 4: "(y mod 4 = 0) = (e = 3)"
    using assms mod_decomp_zero [of "e + 1" 4 "100 * a + 25 * b + c"] by auto
  have aux: "(4 * c + e + 1 = 100) = (c = 24 \<and> e = 3)"
    using assms(3-6) by presburger
  have "y = 100 * (4 * a + b) + (4 * c + e + 1)" by (simp add: y_def)
  moreover have "0 < 4 * c + e + 1" "4 * c + e + 1 \<le> 100" using assms by simp_all
  ultimately have 100: "(y mod 100 = 0) = (c = 24 \<and> e = 3)"
    using mod_decomp_zero [of "4 * c + e + 1" 100 "4 * a + b"] aux by simp
  have aux2: "(100 * b + 4 * c + e + 1 = 400) = (b = 3 \<and> c = 24 \<and> e = 3)"
  proof
    assume h: "100 * b + 4 * c + e + 1 = 400"
    with assms have "b = 3" by linarith
    with h have "4 * c + e + 1 = 100" by simp
    with aux \<open>b = 3\<close> show "b = 3 \<and> c = 24 \<and> e = 3" by simp
  next
    assume "b = 3 \<and> c = 24 \<and> e = 3"
    then show "100 * b + 4 * c + e + 1 = 400" by simp
  qed
  have "y = 400 * a + (100 * b + 4 * c + e + 1)" by (simp add: y_def)
  moreover have "0 < 100 * b + 4 * c + e + 1" "100 * b + 4 * c + e + 1 \<le> 400" using assms by simp_all
  ultimately have 400: "(y mod 400 = 0) = (b = 3 \<and> c = 24 \<and> e = 3)"
    using mod_decomp_zero [of "100 * b + 4 * c + e + 1" 400 a] aux2 by simp
  show ?thesis
    unfolding y_def [symmetric] is_leap_def 4 100 400 by auto
qed


lemma month_part:
  fixes n y :: int
  assumes "0 \<le> n" "n \<le> 364"
  shows "(case (let m = (n + 50) div 32;
                    preceding = DAYS_BEFORE_MONTH ! nat m + (if m > 2 \<and> lp then 1 else 0)
                in if preceding > n
                   then let m' = m - 1;
                            preceding' = preceding - (DAYS_IN_MONTH ! nat m' + (if m' = 2 \<and> lp then 1 else 0))
                        in (y, m', n - preceding' + 1)
                   else (y, m, n - preceding + 1)) of
            (y', m, d) \<Rightarrow> y' = y \<and> DAYS_BEFORE_MONTH ! nat m + (if m > 2 \<and> lp then 1 else 0) + d = n + 1)"
proof -
  define m where "m = (n + 50) div 32"
  have "32 div 32 \<le> (n + 50) div (32::int)" using assms by (intro zdiv_mono1) simp_all
  then have lo: "1 \<le> m" by (simp add: m_def)
  have "(n + 50) div 32 \<le> 414 div (32::int)" using assms by (intro zdiv_mono1) simp_all
  then have hi: "m \<le> 12" by (simp add: m_def)
  from lo hi have "m = 1 \<or> m = 2 \<or> m = 3 \<or> m = 4 \<or> m = 5 \<or> m = 6 \<or> m = 7 \<or> m = 8 \<or> m = 9
      \<or> m = 10 \<or> m = 11 \<or> m = 12" by arith
  then show ?thesis
    unfolding Let_def m_def [symmetric]
    using assms(1)
    by (elim disjE) (simp_all add: DAYS_BEFORE_MONTH_def DAYS_IN_MONTH_def)
qed


text \<open>The ordinal of the date of an ordinal is that ordinal.\<close>

lemma ymd2ord_ord2ymd:
  assumes "0 < k"
  shows "(case ord2ymd k of (y, m, d) \<Rightarrow> ymd2ord y m d) = k"
proof -
  define n0 where "n0 = k - 1"
  define a where "a = n0 div 146097"
  define r1 where "r1 = n0 mod 146097"
  define b where "b = r1 div 36524"
  define r2 where "r2 = r1 mod 36524"
  define c where "c = r2 div 1461"
  define r3 where "r3 = r2 mod 1461"
  define e where "e = r3 div 365"
  define r4 where "r4 = r3 mod 365"
  have n0: "n0 = 146097 * a + r1" by (simp add: a_def r1_def)
  have r1: "r1 = 36524 * b + r2" "0 \<le> r1" "r1 < 146097" by (simp_all add: b_def r2_def r1_def)
  have r2: "r2 = 1461 * c + r3" "0 \<le> r2" "r2 < 36524" by (simp_all add: c_def r3_def r2_def)
  have r3: "r3 = 365 * e + r4" "0 \<le> r3" "r3 < 1461" by (simp_all add: e_def r4_def r3_def)
  have r4: "0 \<le> r4" "r4 < 365" by (simp_all add: r4_def)
  have b: "0 \<le> b" "b \<le> 4" using r1 r2 by linarith+
  have c: "0 \<le> c" "c \<le> 24" using r2 r3 by linarith+
  have e: "0 \<le> e" "e \<le> 4" using r3 r4 by linarith+
  have k: "k = 146097 * a + 36524 * b + 1461 * c + 365 * e + r4 + 1"
    using n0 r1(1) r2(1) r3(1) by (simp add: n0_def)
  have unfold: "ord2ymd k =
     (if e = 4 \<or> b = 4 then (400 * a + 1 + 100 * b + 4 * c + e - 1, 12, 31)
      else
        let m = (r4 + 50) div 32;
            preceding = DAYS_BEFORE_MONTH ! nat m + (if m > 2 \<and> (e = 3 \<and> (c \<noteq> 24 \<or> b = 3)) then 1 else 0)
        in if preceding > r4
           then let m' = m - 1;
                    preceding' = preceding - (DAYS_IN_MONTH ! nat m'
                       + (if m' = 2 \<and> (e = 3 \<and> (c \<noteq> 24 \<or> b = 3)) then 1 else 0))
                in (400 * a + 1 + 100 * b + 4 * c + e, m', r4 - preceding' + 1)
           else (400 * a + 1 + 100 * b + 4 * c + e, m, r4 - preceding + 1))"
    unfolding ord2ymd_def Let_def n0_def [symmetric] a_def [symmetric] r1_def [symmetric]
      b_def [symmetric] r2_def [symmetric] c_def [symmetric] r3_def [symmetric] e_def [symmetric]
      r4_def [symmetric]
    by (simp add: algebra_simps)
  show ?thesis
  proof (cases "b = 4")
    case True
    with r1 r2 have "r2 = 0" by linarith
    with r2 r3 c have "c = 0" "r3 = 0" by linarith+
    with r3 r4 e have "e = 0" "r4 = 0" by linarith+
    have y: "400 * a + 1 + 100 * b + 4 * c + e - 1 = 400 * a + 100 * 3 + 4 * 24 + 3 + 1"
      using True \<open>c = 0\<close> \<open>e = 0\<close> by simp
    have "ymd2ord (400 * a + 100 * 3 + 4 * 24 + 3 + 1) 12 31 = k"
      unfolding ymd2ord_def days_before_month_def
      using days_before_year_decomp [of 3 24 3 a] is_leap_decomp [of 3 24 3 a]
        k True \<open>c = 0\<close> \<open>e = 0\<close> \<open>r4 = 0\<close>
      by (simp add: DAYS_BEFORE_MONTH_def)
    then show ?thesis
      using True \<open>c = 0\<close> \<open>e = 0\<close> by (simp add: unfold)
  next
    case False
    with b have b3: "b \<le> 3" by simp
    show ?thesis
    proof (cases "e = 4")
      case True
      with r3 r4 have "r4 = 0" by linarith
      have c23: "c \<le> 23"
      proof (rule ccontr)
        assume "\<not> c \<le> 23"
        with c have "c = 24" by simp
        with r2 r3 True \<open>r4 = 0\<close> show False by simp
      qed
      have y: "400 * a + 1 + 100 * b + 4 * c + e - 1 = 400 * a + 100 * b + 4 * c + 3 + 1"
        using True by simp
      have "ymd2ord (400 * a + 100 * b + 4 * c + 3 + 1) 12 31 = k"
        unfolding ymd2ord_def days_before_month_def
        using days_before_year_decomp [of b c 3 a] is_leap_decomp [of b c 3 a]
          k True \<open>r4 = 0\<close> b b3 c c23
        by (simp add: DAYS_BEFORE_MONTH_def)
      then show ?thesis
        using True by (simp add: unfold y)
    next
      case e4: False
      with e have e3: "e \<le> 3" by simp
      define lp where "lp = (e = 3 \<and> (c \<noteq> 24 \<or> b = 3))"
      define y where "y = 400 * a + 100 * b + 4 * c + e + 1"
      have leap: "is_leap y = lp"
        unfolding y_def lp_def by (rule is_leap_decomp) (use b b3 c e e3 in simp_all)
      have dby: "days_before_year y = 146097 * a + 36524 * b + 1461 * c + 365 * e"
        unfolding y_def by (rule days_before_year_decomp) (use b b3 c e e3 in simp_all)
      have y': "400 * a + 1 + 100 * b + 4 * c + e = y" by (simp add: y_def)
      from r4 have "r4 \<le> 364" by simp
      note mp = month_part [OF r4(1) this, where lp = lp and y = y]
      define md where "md = (let m = (r4 + 50) div 32;
                    preceding = DAYS_BEFORE_MONTH ! nat m + (if m > 2 \<and> lp then 1 else 0)
                in if preceding > r4
                   then let m' = m - 1;
                            preceding' = preceding - (DAYS_IN_MONTH ! nat m' + (if m' = 2 \<and> lp then 1 else 0))
                        in (y, m', r4 - preceding' + 1)
                   else (y, m, r4 - preceding + 1))"
      have o: "ord2ymd k = md"
        unfolding unfold y' lp_def [symmetric] md_def using False e4 by simp
      obtain y1 m d where md: "md = (y1, m, d)" by (cases md)
      from mp have "y1 = y" and s: "DAYS_BEFORE_MONTH ! nat m + (if m > 2 \<and> lp then 1 else 0) + d = r4 + 1"
        unfolding md_def [symmetric] md by simp_all
      have "ymd2ord y m d = k"
        unfolding ymd2ord_def days_before_month_def leap dby k using s by simp
      then show ?thesis
        unfolding o md \<open>y1 = y\<close> by simp
    qed
  qed
qed

text \<open>
  The claim C2 as it is written fails: the window is never counted in the units of the
  dataset's periods. For a monthly dataset with N = 60, on 2024-01-01, "now minus
  \<open>2 \<times> N\<close>" in months is 2014-01-01; the windowed URL built asks for the observations
  since 2023-09-03, which is 120 days before.
\<close>

theorem C2_counterexample:
  "fst (build_oecd_urls demo_env ''MEI'' ''all'' 60 ''csv'' w_empty)
     = Inr [url_lastN ''MEI'' ''all'' 60 ''csv'', url_start ''MEI'' ''all'' ''csv'' (2023, 9, 3)]
   \<and> spec_window_start Monthly demo_now 60 = (2014, 1, 1)
   \<and> fst (build_oecd_urls demo_env ''MEI'' ''all'' 60 ''csv'' w_empty)
     \<noteq> Inr [url_lastN ''MEI'' ''all'' 60 ''csv'',
             url_start ''MEI'' ''all'' ''csv'' (spec_window_start Monthly demo_now 60)]"
  by (simp add: build_oecd_urls_eq demo_env_simps window_demo_120 spec_monthly_demo url_start_inj
        isoformat_demo)

text \<open>
  Claim C2, amended. For every dataset request with observation window N, whatever the
  dataset's period granularity, the windowed fallback URL is the base URL with the
  common parameters and \<^verbatim>\<open>startPeriod\<close> set to the ISO date (year-month-day) of the day
  \<open>2 \<times> N\<close> days before today's UTC date, provided \<open>2 \<times> N\<close> days is a \<^verbatim>\<open>timedelta\<close> and
  that day is a date (in the years 1 to 9999): the ordinal of the start date is the
  ordinal of today minus \<open>2 \<times> N\<close>. It is the start the specification describes for a
  dataset of daily granularity.
\<close>

theorem C2_window_in_days:
  assumes "build_oecd_urls env ds kp n f w = (r, w')"
    and "now = utcnow env (tick w)"
    and "today = ymd2ord (year now) (month now) (day now)"
    and "\<bar>2 * n\<bar> \<le> 999999999" and "0 < today - 2 * n" and "today - 2 * n \<le> MAXORDINAL"
    and "start = ord2ymd (today - 2 * n)"
  shows "r = Inr [url_lastN ds kp n f,
                  oecd_base ds kp @ ''?'' @ params_common f @ ''&startPeriod='' @ isoformat start]
       \<and> (case start of (y, m, d) \<Rightarrow> ymd2ord y m d) = today - 2 * n
       \<and> start = spec_window_start Daily now n"
proof -
  have "date_minus_days now (n * 2) = Inr start"
    using assms(3-7) by (simp add: date_minus_days_def Let_def mult.commute)
  with assms(1,2) have "r = Inr [url_lastN ds kp n f, url_start ds kp f start]"
    by (auto simp: build_oecd_urls_eq)
  moreover have "(case start of (y, m, d) \<Rightarrow> ymd2ord y m d) = today - 2 * n"
    unfolding assms(7) using assms(5) by (rule ymd2ord_ord2ymd)
  ultimately show ?thesis
    using assms(3,7) by (simp add: url_start_def spec_window_start_def)
qed

lemma today_demo: "ymd2ord (year demo_now) (month demo_now) (day demo_now) = 738886"
  by code_simp

lemma start_demo: "ord2ymd 738766 = (2023, 9, 3)"
  by code_simp

lemma MAXORDINAL_demo: "738886 - 2 * 60 \<le> MAXORDINAL"
  by (simp add: MAXORDINAL_def)

text \<open>The window of 60 observations on 2024-01-01.\<close>

theorem C2_window_in_days_witness:
  "\<bar>2 * (60::int)\<bar> \<le> 999999999 \<and> (0::int) < 738886 - 2 * 60 \<and> 738886 - 2 * 60 \<le> MAXORDINAL
   \<and> fst (build_oecd_urls demo_env ''MEI'' ''all'' 60 ''csv'' w_empty)
       = Inr [url_lastN ''MEI'' ''all'' 60 ''csv'',
              oecd_base ''MEI'' ''all'' @ ''?'' @ params_common ''csv'' @ ''&startPeriod=2023-09-03'']
   \<and> ymd2ord 2023 9 3 = ymd2ord 2024 1 1 - 120
   \<and> spec_window_start Daily demo_now 60 = (2023, 9, 3)"
proof -
  have 1: "build_oecd_urls demo_env ''MEI'' ''all'' 60 ''csv'' w_empty
     = (fst (build_oecd_urls demo_env ''MEI'' ''all'' 60 ''csv'' w_empty),
        snd (build_oecd_urls demo_env ''MEI'' ''all'' 60 ''csv'' w_empty))"
    by simp
  have 2: "demo_now = utcnow demo_env (tick w_empty)" by (simp add: demo_env_simps)
  have 3: "738886 = ymd2ord (year demo_now) (month demo_now) (day demo_now)"
    by (simp only: today_demo)
  have 4: "\<bar>2 * (60::int)\<bar> \<le> 999999999" by simp
  have 5: "(0::int) < 738886 - 2 * 60" by simp
  note 6 = MAXORDINAL_demo
  have 7: "(2023, 9, 3) = ord2ymd (738886 - 2 * 60)" by (simp add: start_demo)
  have t: "ymd2ord 2024 1 1 = 738886" using today_demo by (simp add: demo_now_def)
  from C2_window_in_days [OF 1 2 3 4 5 6 7]
  have a: "fst (build_oecd_urls demo_env ''MEI'' ''all'' 60 ''csv'' w_empty)
       = Inr [url_lastN ''MEI'' ''all'' 60 ''csv'',
              oecd_base ''MEI'' ''all'' @ ''?'' @ params_common ''csv'' @ ''&startPeriod=''
                @ isoformat (2023, 9, 3)]"
    and b: "ymd2ord 2023 9 3 = 738886 - 2 * 60"
    and c: "(2023, 9, 3) = spec_window_start Daily demo_now 60"
    by simp_all
  from a have "fst (build_oecd_urls demo_env ''MEI'' ''all'' 60 ''csv'' w_empty)
       = Inr [url_lastN ''MEI'' ''all'' 60 ''csv'',
              oecd_base ''MEI'' ''all'' @ ''?'' @ params_common ''csv'' @ ''&startPeriod=2023-09-03'']"
    by (simp add: isoformat_demo)
  moreover from b t have "ymd2ord 2023 9 3 = ymd2ord 2024 1 1 - 120" by simp
  ultimately show ?thesis using 4 5 6 c by simp
qed

section \<open>The loop over the datasets and the report\<close>

lemma map_of_update: "map_of (AList.update k v al) = (map_of al)(k \<mapsto> v)"
  by (rule update_conv')

lemma result_maps:
  "map_of (error_result ds e) = [''dataset'' \<mapsto> PStr ds, ''error'' \<mapsto> PStr (exn_str e)]"
  "map_of (AList.update ''dataset'' (PStr ds) (unchanged_result h u))
     = [''stored'' \<mapsto> PBool False, ''reason'' \<mapsto> PStr ''unchanged'', ''hash'' \<mapsto> PStr h,
        ''url'' \<mapsto> PStr u, ''dataset'' \<mapsto> PStr ds]"
  "map_of (AList.update ''dataset'' (PStr ds) (stored_result k h u))
     = [''stored'' \<mapsto> PBool True, ''s3_key'' \<mapsto> PStr k, ''hash'' \<mapsto> PStr h,
        ''url'' \<mapsto> PStr u, ''dataset'' \<mapsto> PStr ds]"
  by (auto simp: error_result_def unchanged_result_def stored_result_def map_of_update fun_eq_iff)

lemma error_result_facts:
  "error_shape (error_result ds e)" "\<not> stored_shape (error_result ds e)"
  "\<not> unchanged_shape (error_result ds e)" "\<not> is_ok (error_result ds e)"
  "is_err (error_result ds e) = (exn_str e \<noteq> [])"
  "map_of (error_result ds e) ''dataset'' = Some (PStr ds)"
  "\<not> truthy (map_of (error_result ds e) ''stored'')"
  "map_of (error_result ds e) ''reason'' = None"
  by (simp_all add: result_maps error_shape_def stored_shape_def unchanged_shape_def is_ok_def is_err_def)

lemma unchanged_facts:
  "unchanged_shape (AList.update ''dataset'' (PStr ds) (unchanged_result h u))"
  "\<not> stored_shape (AList.update ''dataset'' (PStr ds) (unchanged_result h u))"
  "\<not> error_shape (AList.update ''dataset'' (PStr ds) (unchanged_result h u))"
  "is_ok (AList.update ''dataset'' (PStr ds) (unchanged_result h u))"
  "\<not> is_err (AList.update ''dataset'' (PStr ds) (unchanged_result h u))"
  "\<not> truthy (map_of (AList.update ''dataset'' (PStr ds) (unchanged_result h u)) ''stored'')"
  "map_of (AList.update ''dataset'' (PStr ds) (unchanged_result h u)) ''reason'' = Some (PStr ''unchanged'')"
  "map_of (AList.update ''dataset'' (PStr ds) (unchanged_result h u)) ''stored'' = Some (PBool False)"
  "map_of (AList.update ''dataset'' (PStr ds) (unchanged_result h u)) ''dataset'' = Some (PStr ds)"
  by (simp_all add: result_maps error_shape_def stored_shape_def unchanged_shape_def is_ok_def is_err_def)

lemma stored_facts:
  "stored_shape (AList.update ''dataset'' (PStr ds) (stored_result k h u))"
  "\<not> unchanged_shape (AList.update ''dataset'' (PStr ds) (stored_result k h u))"
  "\<not> error_shape (AList.update ''dataset'' (PStr ds) (stored_result k h u))"
  "is_ok (AList.update ''dataset'' (PStr ds) (stored_result k h u))"
  "\<not> is_err (AList.update ''dataset'' (PStr ds) (stored_result k h u))"
  "truthy (map_of (AList.update ''dataset'' (PStr ds) (stored_result k h u)) ''stored'')"
  "map_of (AList.update ''dataset'' (PStr ds) (stored_result k h u)) ''reason'' = None"
  "map_of (AList.update ''dataset'' (PStr ds) (stored_result k h u)) ''stored'' = Some (PBool True)"
  "map_of (AList.update ''dataset'' (PStr ds) (stored_result k h u)) ''dataset'' = Some (PStr ds)"
  by (simp_all add: result_maps error_shape_def stored_shape_def unchanged_shape_def is_ok_def is_err_def)


lemma http_get_loop_frame:
  "http_get_loop env url as le w = (r, w') \<Longrightarrow>
   table w' = table w \<and> s3_objects w' = s3_objects w \<and> aws_log w' = aws_log w"
proof (induction as arbitrary: le w)
  case Nil
  then show ?case by (auto split: option.splits)
next
  case (Cons a as)
  show ?case
  proof (cases "urlopen env url (tick w)")
    case (Body b)
    with Cons.prems show ?thesis
      by (auto simp: http_get_loop_Cons requested_simps simp del: http_get_loop.simps)
  next
    case (Raises e)
    show ?thesis
    proof (cases "retryable e")
      case True
      with Raises Cons.prems
      have "http_get_loop env url as (Some e) (sleep (2 * a) (requested url w)) = (r, w')"
        by (simp add: http_get_loop_Cons del: http_get_loop.simps)
      from Cons.IH [OF this] show ?thesis
        by (simp add: requested_simps sleep_simps)
    next
      case False
      with Raises Cons.prems show ?thesis
        by (auto simp: http_get_loop_Cons requested_simps simp del: http_get_loop.simps)
    qed
  qed
qed

lemma http_get_frame:
  "http_get env url w = (r, w') \<Longrightarrow>
   table w' = table w \<and> s3_objects w' = s3_objects w \<and> aws_log w' = aws_log w"
  unfolding http_get_def by (rule http_get_loop_frame)

lemma fetch_loop_frame:
  "fetch_loop env urls acc w = (r, w') \<Longrightarrow>
   table w' = table w \<and> s3_objects w' = s3_objects w \<and> aws_log w' = aws_log w"
proof (induction urls arbitrary: acc w)
  case Nil
  then show ?case by simp
next
  case (Cons url urls)
  obtain rA wA where g: "http_get env url w = (rA, wA)" by (cases "http_get env url w")
  note f = http_get_frame [OF g]
  show ?case
  proof (cases "failed_candidate url rA")
    case None
    with Cons.prems g f show ?thesis
      by (simp add: fetch_loop_Cons del: fetch_loop.simps)
  next
    case (Some s)
    with Cons.prems g have "fetch_loop env urls (acc @ [s]) wA = (r, w')"
      by (simp add: fetch_loop_Cons del: fetch_loop.simps)
    from Cons.IH [OF this] f show ?thesis by simp
  qed
qed

lemma fetch_oecd_frame:
  assumes "fetch_oecd env ds kp n f w = (r, w')"
  shows "table w' = table w \<and> s3_objects w' = s3_objects w \<and> aws_log w' = aws_log w"
proof (cases "date_minus_days (utcnow env (tick w)) (n * 2)")
  case (Inl e)
  with assms show ?thesis
    by (auto simp: fetch_oecd_def build_oecd_urls_eq)
next
  case (Inr start)
  obtain r0 w0 where l: "fetch_loop env [url_lastN ds kp n f, url_start ds kp f start] []
      (w\<lparr>tick := Suc (tick w)\<rparr>) = (r0, w0)"
    by (cases "fetch_loop env [url_lastN ds kp n f, url_start ds kp f start] [] (w\<lparr>tick := Suc (tick w)\<rparr>)")
  from fetch_loop_frame [OF l] have "table w0 = table w \<and> s3_objects w0 = s3_objects w \<and> aws_log w0 = aws_log w"
    by simp
  moreover from assms Inr l have "w' = w0"
    by (auto simp: fetch_oecd_def build_oecd_urls_eq simp del: fetch_loop.simps split: sum.splits)
  ultimately show ?thesis by simp
qed

lemma put_if_new_Inl_s3:
  "put_if_new env ds url raw b p f gz t w = (Inl e, w') \<Longrightarrow> s3_objects w' = s3_objects w"
  by (cases "ledger_enabled t")
     (auto simp: put_if_new_enabled put_if_new_disabled archive_eq called_def Let_def
        split: option.splits if_splits)

lemma process_dataset_cases:
  assumes "process_dataset env cfg ds w = (r, w')"
  shows "(\<exists>e. r = error_result ds e \<and> s3_objects w' = s3_objects w)
       \<or> (\<exists>h u. r = AList.update ''dataset'' (PStr ds) (unchanged_result h u)
                 \<and> s3_objects w' = s3_objects w \<and> table w' = table w)
       \<or> (\<exists>k h u rq. r = AList.update ''dataset'' (PStr ds) (stored_result k h u)
                 \<and> s3_objects w' = s3_objects w @ [rq])"
proof -
  obtain r1 w1 where f: "fetch_oecd env ds (key_path_of cfg ds) (last_n_obs cfg) (fmt cfg) w = (r1, w1)"
    by (cases "fetch_oecd env ds (key_path_of cfg ds) (last_n_obs cfg) (fmt cfg) w")
  note fr = fetch_oecd_frame [OF f]
  show ?thesis
  proof (cases r1)
    case (Inl e)
    with assms f fr show ?thesis by (auto simp: process_dataset_def)
  next
    case (Inr found)
    obtain raw url where found: "found = (raw, url)" by (cases found)
    obtain r2 w2 where p: "put_if_new env ds url raw (s3_bucket cfg) (s3_prefix cfg) (fmt cfg)
         (gzip_output cfg) (ddb_table cfg) w1 = (r2, w2)"
      by (cases "put_if_new env ds url raw (s3_bucket cfg) (s3_prefix cfg) (fmt cfg)
         (gzip_output cfg) (ddb_table cfg) w1")
    show ?thesis
    proof (cases r2)
      case (Inl e)
      with assms f Inr found p fr put_if_new_Inl_s3 [of env ds url raw _ _ _ _ _ w1 e w2]
      show ?thesis by (auto simp: process_dataset_def)
    next
      case (Inr res)
      with p have p': "put_if_new env ds url raw (s3_bucket cfg) (s3_prefix cfg) (fmt cfg)
         (gzip_output cfg) (ddb_table cfg) w1 = (Inr res, w2)" by simp
      from assms f \<open>r1 = Inr found\<close> found p' have r: "r = AList.update ''dataset'' (PStr ds) res" "w' = w2"
        by (auto simp: process_dataset_def)
      from put_if_new_Inr [OF p'] show ?thesis
      proof (elim disjE conjE)
        assume "res = unchanged_result (sha256_hex env raw) url" "s3_objects w2 = s3_objects w1"
          "table w2 = table w1"
        with r fr have "r = AList.update ''dataset'' (PStr ds) (unchanged_result (sha256_hex env raw) url)
                 \<and> s3_objects w' = s3_objects w \<and> table w' = table w"
          by simp
        then show ?thesis by blast
      next
        assume "res = stored_result (Key (archive_request env ds url raw (s3_bucket cfg) (s3_prefix cfg)
                  (fmt cfg) (gzip_output cfg) (utcnow env (tick w1)))) (sha256_hex env raw) url"
          "s3_objects w2 = s3_objects w1 @ [archive_request env ds url raw (s3_bucket cfg) (s3_prefix cfg)
                  (fmt cfg) (gzip_output cfg) (utcnow env (tick w1))]"
        with r fr have "r = AList.update ''dataset'' (PStr ds)
              (stored_result (Key (archive_request env ds url raw (s3_bucket cfg) (s3_prefix cfg)
                  (fmt cfg) (gzip_output cfg) (utcnow env (tick w1)))) (sha256_hex env raw) url)
            \<and> s3_objects w' = s3_objects w @ [archive_request env ds url raw (s3_bucket cfg) (s3_prefix cfg)
                  (fmt cfg) (gzip_output cfg) (utcnow env (tick w1))]"
          by simp
        then show ?thesis by blast
      qed
    qed
  qed
qed


lemma handler_loop_acc:
  "handler_loop env cfg dss rs w =
     (rs @ fst (handler_loop env cfg dss [] w), snd (handler_loop env cfg dss [] w))"
proof (induction dss arbitrary: rs w)
  case Nil
  show ?case by simp
next
  case (Cons ds rest)
  obtain r w1 where p: "process_dataset env cfg ds w = (r, w1)" by (cases "process_dataset env cfg ds w")
  show ?case
    using Cons.IH [of "rs @ [r]" w1] Cons.IH [of "[r]" w1] p by simp
qed

lemma handler_loop_Cons:
  "handler_loop env cfg (ds # rest) [] w =
     (case process_dataset env cfg ds w of (r, w1) \<Rightarrow>
        (case handler_loop env cfg rest [] w1 of (rs, w2) \<Rightarrow> (r # rs, w2)))"
proof -
  obtain r w1 where p: "process_dataset env cfg ds w = (r, w1)" by (cases "process_dataset env cfg ds w")
  show ?thesis
    using handler_loop_acc [of env cfg rest "[r]" w1] p by (simp split: prod.splits)
qed

text \<open>Every result of the loop is built by one of the three return paths, for its dataset.\<close>

lemma handler_loop_results:
  "handler_loop env cfg dss [] w = (rs, w') \<Longrightarrow>
   list_all2 (\<lambda>ds r. (\<exists>e. r = error_result ds e)
                \<or> (\<exists>h u. r = AList.update ''dataset'' (PStr ds) (unchanged_result h u))
                \<or> (\<exists>k h u. r = AList.update ''dataset'' (PStr ds) (stored_result k h u))) dss rs"
proof (induction dss arbitrary: w rs w')
  case Nil
  then show ?case by simp
next
  case (Cons ds rest)
  obtain r w1 where p: "process_dataset env cfg ds w = (r, w1)" by (cases "process_dataset env cfg ds w")
  obtain rs1 w2 where l: "handler_loop env cfg rest [] w1 = (rs1, w2)"
    by (cases "handler_loop env cfg rest [] w1")
  from Cons.prems p l have rs: "rs = r # rs1"
    by (simp add: handler_loop_Cons del: handler_loop.simps)
  from process_dataset_cases [OF p]
  have "(\<exists>e. r = error_result ds e)
                \<or> (\<exists>h u. r = AList.update ''dataset'' (PStr ds) (unchanged_result h u))
                \<or> (\<exists>k h u. r = AList.update ''dataset'' (PStr ds) (stored_result k h u))"
    by blast
  with Cons.IH [OF l] rs show ?case by simp
qed

lemma built_facts:
  assumes "built r"
  shows "truthy (map_of r ''stored'') = stored_shape r"
    and "(map_of r ''reason'' = Some (PStr ''unchanged'')) = unchanged_shape r"
    and "is_ok r = (stored_shape r \<or> unchanged_shape r)"
    and "is_err r \<Longrightarrow> error_shape r"
    and "(stored_shape r \<and> \<not> unchanged_shape r \<and> \<not> error_shape r)
       \<or> (\<not> stored_shape r \<and> unchanged_shape r \<and> \<not> error_shape r)
       \<or> (\<not> stored_shape r \<and> \<not> unchanged_shape r \<and> error_shape r)"
  using assms unfolding built_def
  by (auto simp: error_result_facts unchanged_facts stored_facts)

lemma report_counts:
  assumes "\<forall>r \<in> set rs. built r"
  shows "stored (summary_of (make_report rs)) = length (filter stored_shape rs)
       \<and> unchanged (summary_of (make_report rs)) = length (filter unchanged_shape rs)
       \<and> errors (summary_of (make_report rs)) = length (filter is_err rs)
       \<and> length (filter stored_shape rs) + length (filter unchanged_shape rs)
           + length (filter error_shape rs) = length rs
       \<and> length (filter is_err rs) \<le> length (filter error_shape rs)
       \<and> length (filter stored_shape rs) + length (filter unchanged_shape rs) = length (filter is_ok rs)"
proof -
  have ok: "filter (\<lambda>r. truthy (map_of r ''stored'')) (filter is_ok rs) = filter stored_shape rs"
    using assms by (induction rs) (auto simp: built_facts)
  have un: "filter (\<lambda>r. map_of r ''reason'' = Some (PStr ''unchanged'')) (filter is_ok rs)
              = filter unchanged_shape rs"
    using assms by (induction rs) (auto simp: built_facts)
  have sum: "length (filter stored_shape rs) + length (filter unchanged_shape rs)
           + length (filter error_shape rs) = length rs"
    using assms
  proof (induction rs)
    case Nil
    show ?case by simp
  next
    case (Cons r rs)
    then have "built r" by simp
    from built_facts(5) [OF this] Cons show ?case by auto
  qed
  have le: "length (filter is_err rs) \<le> length (filter error_shape rs)"
    using assms
  proof (induction rs)
    case Nil
    show ?case by simp
  next
    case (Cons r rs)
    then have "built r" by simp
    from built_facts(4) [OF this] Cons show ?case by auto
  qed
  have oks: "length (filter stored_shape rs) + length (filter unchanged_shape rs) = length (filter is_ok rs)"
    using assms
  proof (induction rs)
    case Nil
    show ?case by simp
  next
    case (Cons r rs)
    then have "built r" by simp
    from built_facts(3,5) [OF this] Cons show ?case by auto
  qed
  show ?thesis
    unfolding make_report_def Let_def ok un
    using sum le oks by simp
qed

lemma handler_loop_length:
  "handler_loop env cfg dss [] w = (rs, w') \<Longrightarrow> length rs = length dss"
  by (drule handler_loop_results) (rule list_all2_lengthD [symmetric])

lemma handler_loop_built:
  assumes "handler_loop env cfg dss [] w = (rs, w')"
  shows "\<forall>r \<in> set rs. built r"
proof -
  from handler_loop_results [OF assms]
  have "list_all2 (\<lambda>ds r. built r) dss rs"
    by (rule list_all2_mono) (unfold built_def, blast)
  then show ?thesis
    by (auto simp: list_all2_conv_all_nth in_set_conv_nth)
qed




lemma process_dataset_disabled:
  assumes "fetch_oecd env ds (key_path_of cfg ds) (last_n_obs cfg) (fmt cfg) w = (Inr (raw, url), w1)"
    and "\<not> ledger_enabled (ddb_table cfg)"
    and "rq = archive_request env ds url raw (s3_bucket cfg) (s3_prefix cfg) (fmt cfg) (gzip_output cfg)
                (utcnow env (tick w1))"
  shows "process_dataset env cfg ds w =
     (case aws_fault env (PutObject rq) (Suc (tick w1)) of
        None \<Rightarrow> (AList.update ''dataset'' (PStr ds) (stored_result (Key rq) (sha256_hex env raw) url),
                 called (PutObject rq) (w1\<lparr>tick := Suc (tick w1), s3_objects := s3_objects w1 @ [rq]\<rparr>))
      | Some e \<Rightarrow> (error_result ds e, called (PutObject rq) (w1\<lparr>tick := Suc (tick w1)\<rparr>)))"
  using assms
  by (simp add: process_dataset_def put_if_new_disabled archive_eq Let_def split: option.splits)

lemma handler_loop_fst_map:
  assumes "\<And>ds w. ds \<in> set dss \<Longrightarrow> fst (process_dataset env cfg ds w) = f ds"
  shows "fst (handler_loop env cfg dss [] w) = map f dss"
  using assms
proof (induction dss arbitrary: w)
  case Nil
  show ?case by simp
next
  case (Cons ds rest)
  have "fst (handler_loop env cfg rest [] w1) = map f rest" for w1
    using Cons.IH Cons.prems by simp
  moreover have "fst (process_dataset env cfg ds w) = f ds"
    using Cons.prems by simp
  ultimately show ?case
    by (simp add: handler_loop_Cons del: handler_loop.simps split: prod.splits)
       (metis fst_conv)
qed

lemma fetch_first_accepted:
  assumes "urlopen env (url_lastN ds kp n f) (Suc (tick w)) = Body b" and "32 \<le> length b"
    and "date_minus_days (utcnow env (tick w)) (n * 2) = Inr start"
  shows "fetch_oecd env ds kp n f w =
     (Inr (b, url_lastN ds kp n f), requested (url_lastN ds kp n f) (w\<lparr>tick := Suc (tick w)\<rparr>))"
proof -
  have "http_get env (url_lastN ds kp n f) (w\<lparr>tick := Suc (tick w)\<rparr>)
      = (Inr b, requested (url_lastN ds kp n f) (w\<lparr>tick := Suc (tick w)\<rparr>))"
    using assms(1) by (intro http_get_Body) simp
  then show ?thesis
    using assms(2) by (simp add: fetch_oecd_unfold [OF assms(3) refl refl] failed_candidate_simps)
qed


lemma demo_cfg_simps:
  "s3_bucket (demo_cfg dss tbl) = ''bucket''" "s3_prefix (demo_cfg dss tbl) = ''oecd/raw''"
  "fmt (demo_cfg dss tbl) = ''csv''" "gzip_output (demo_cfg dss tbl) = False"
  "last_n_obs (demo_cfg dss tbl) = 60" "ddb_table (demo_cfg dss tbl) = tbl"
  "datasets (demo_cfg dss tbl) = dss" "key_path_of (demo_cfg dss tbl) ds = ''all''"
  by (simp_all add: demo_cfg_def key_path_of_def)



lemma process_stored_disabled:
  assumes "urlopen env (url_lastN ds ''all'' 60 ''csv'') = (\<lambda>t. Body demo_payload)"
    and "utcnow env = (\<lambda>t. demo_now)" and "sha256_hex env = demo_sha256"
    and "\<And>rq t. aws_fault env (PutObject rq) t = flt"
  shows "fst (process_dataset env (demo_cfg dss None) ds w) =
     (case flt of
        None \<Rightarrow> AList.update ''dataset'' (PStr ds)
                  (stored_result (s3_key ''oecd/raw'' ds demo_now demo_digest ''csv'') demo_digest
                     (url_lastN ds ''all'' 60 ''csv''))
      | Some e \<Rightarrow> error_result ds e)"
proof -
  have f: "fetch_oecd env ds ''all'' 60 ''csv'' w =
     (Inr (demo_payload, url_lastN ds ''all'' 60 ''csv''),
      requested (url_lastN ds ''all'' 60 ''csv'') (w\<lparr>tick := Suc (tick w)\<rparr>))"
    by (rule fetch_first_accepted [where start = "(2023, 9, 3)"])
       (simp_all add: assms demo_payload_length window_demo_120)
  have h: "sha256_hex env demo_payload = demo_digest"
    by (simp add: assms(3) demo_sha256_simps)
  show ?thesis
    apply (subst process_dataset_disabled [OF _ _ refl])
      apply (simp add: demo_cfg_simps f)
     apply (simp add: demo_cfg_simps ledger_enabled_simps)
    apply (simp add: demo_cfg_simps assms(2,4) archive_request_key split: option.splits)
    apply (simp add: h)
    done
qed

lemma lambda_handler_fst:
  "fst (lambda_handler env cfg w) = make_report (fst (handler_loop env cfg (datasets cfg) [] w))"
  by (simp add: lambda_handler_def split: prod.splits)


lemma demo_stored_facts:
  "is_ok (demo_stored ds)" "\<not> is_err (demo_stored ds)" "truthy (map_of (demo_stored ds) ''stored'')"
  "map_of (demo_stored ds) ''reason'' = None"
  by (simp_all add: demo_stored_def stored_facts)





section \<open>The shape of the report\<close>

lemma s3_silent_env_simps:
  "urlopen s3_silent_env u = (\<lambda>t. Body demo_payload)" "utcnow s3_silent_env = (\<lambda>t. demo_now)"
  "sha256_hex s3_silent_env = demo_sha256"
  "aws_fault s3_silent_env (PutObject rq) t = Some (Exn ''MemoryError'' [])"
  "aws_fault s3_silent_env (GetItem k) t = None" "aws_fault s3_silent_env (PutItem it) t = None"
  by (simp_all add: s3_silent_env_def demo_env_def)

text \<open>
  Claim C10 says that the counts of the summary add up to the number of configured
  datasets. The code counts as errors the results whose \<^verbatim>\<open>error\<close> is a non-empty string
  (\<^verbatim>\<open>r.get("error")\<close>), while the loop records \<^verbatim>\<open>str(e)\<close> of whatever exception it caught.
  When \<^verbatim>\<open>S3.put_object\<close> raises an exception whose message is empty, the one configured
  dataset has its error result, which is counted nowhere: the summary is 0, 0, 0 and the
  status 200.
\<close>

theorem C10_empty_message_not_counted:
  "let rep = fst (lambda_handler s3_silent_env (demo_cfg [''MEI''] None) w_empty)
   in results rep = [[(''dataset'', PStr ''MEI''), (''error'', PStr [])]]
      \<and> summary_of rep = \<lparr>stored = 0, unchanged = 0, errors = 0\<rparr>
      \<and> statusCode rep = 200
      \<and> stored (summary_of rep) + unchanged (summary_of rep) + errors (summary_of rep)
          < length (datasets (demo_cfg [''MEI''] None))"
proof -
  have "fst (process_dataset s3_silent_env (demo_cfg [''MEI''] None) ''MEI'' w)
      = error_result ''MEI'' (Exn ''MemoryError'' [])" for w
    by (subst process_stored_disabled [where flt = "Some (Exn ''MemoryError'' [])"])
       (simp_all add: s3_silent_env_simps)
  then have "fst (handler_loop s3_silent_env (demo_cfg [''MEI''] None) [''MEI''] [] w_empty)
      = map (\<lambda>ds. error_result ''MEI'' (Exn ''MemoryError'' [])) [''MEI'']"
    by (intro handler_loop_fst_map) simp
  then have r: "fst (handler_loop s3_silent_env (demo_cfg [''MEI''] None) [''MEI''] [] w_empty)
      = [[(''dataset'', PStr ''MEI''), (''error'', PStr [])]]"
    by (simp add: error_result_def del: handler_loop.simps)
  show ?thesis
    by (simp add: lambda_handler_fst demo_cfg_simps r make_report_def Let_def is_ok_def is_err_def
          del: handler_loop.simps)
qed

text \<open>
  What does hold of every report: one result per configured dataset, in order, each
  carrying its dataset and exactly one of the three shapes; the counts of stored and
  unchanged results are exact, and the three counts add up to the number of datasets
  as soon as no error result has an empty message.
\<close>

lemma results_make_report: "results (make_report rs) = rs"
  by (simp add: make_report_def Let_def)

lemma report_invariant:
  assumes "lambda_handler env cfg w = (rep, w')"
  shows "list_all2 (\<lambda>ds r. map_of r ''dataset'' = Some (PStr ds)
            \<and> ((stored_shape r \<and> \<not> unchanged_shape r \<and> \<not> error_shape r)
              \<or> (\<not> stored_shape r \<and> unchanged_shape r \<and> \<not> error_shape r)
              \<or> (\<not> stored_shape r \<and> \<not> unchanged_shape r \<and> error_shape r)))
           (datasets cfg) (results rep)"
    and "stored (summary_of rep) = length (filter stored_shape (results rep))"
    and "unchanged (summary_of rep) = length (filter unchanged_shape (results rep))"
    and "\<forall>r \<in> set (results rep). map_of r ''error'' \<noteq> Some (PStr []) \<Longrightarrow>
         stored (summary_of rep) + unchanged (summary_of rep) + errors (summary_of rep)
           = length (datasets cfg)"
proof -
  obtain rs where l: "handler_loop env cfg (datasets cfg) [] w = (rs, w')" and rep: "rep = make_report rs"
    using assms by (auto simp: lambda_handler_def split: prod.splits)
  have res: "results rep = rs" by (simp add: rep make_report_def Let_def)
  note b = handler_loop_built [OF l]
  note c = report_counts [OF b]
  have len: "length rs = length (datasets cfg)" by (rule handler_loop_length [OF l])
  from handler_loop_results [OF l]
  show "list_all2 (\<lambda>ds r. map_of r ''dataset'' = Some (PStr ds)
            \<and> ((stored_shape r \<and> \<not> unchanged_shape r \<and> \<not> error_shape r)
              \<or> (\<not> stored_shape r \<and> unchanged_shape r \<and> \<not> error_shape r)
              \<or> (\<not> stored_shape r \<and> \<not> unchanged_shape r \<and> error_shape r)))
           (datasets cfg) (results rep)"
    unfolding res
    by (rule list_all2_mono) (auto simp: error_result_facts unchanged_facts stored_facts)
  from c show "stored (summary_of rep) = length (filter stored_shape (results rep))"
    and "unchanged (summary_of rep) = length (filter unchanged_shape (results rep))"
    by (simp_all add: rep results_make_report)
  assume ne: "\<forall>r \<in> set (results rep). map_of r ''error'' \<noteq> Some (PStr [])"
  have "filter is_err rs = filter error_shape rs"
  proof (rule filter_cong [OF refl])
    fix r assume r: "r \<in> set rs"
    with b have "built r" by simp
    moreover from ne r res have "map_of r ''error'' \<noteq> Some (PStr [])" by simp
    ultimately show "is_err r = error_shape r"
      unfolding built_def
      by (auto simp: error_result_facts unchanged_facts stored_facts result_maps)
  qed
  with c len show "stored (summary_of rep) + unchanged (summary_of rep) + errors (summary_of rep)
           = length (datasets cfg)"
    by (simp add: rep)
qed

section \<open>Two runs in succession\<close>

lemma same_hash_ledger_item: "same_hash (Some (ledger_item ds h url ts)) h"
  by (simp add: same_hash_iff ledger_item_last_hash)

lemma put_if_new_ledger:
  assumes "ledger_enabled t" and "aws_ok env"
    and "put_if_new env ds url raw b p f gz t w = (r, w')"
  shows "same_hash (table w' ds) (sha256_hex env raw)
       \<and> (\<forall>d. d \<noteq> ds \<longrightarrow> table w' d = table w d)
       \<and> (same_hash (table w ds) (sha256_hex env raw) \<longrightarrow>
            r = Inr (unchanged_result (sha256_hex env raw) url)
            \<and> table w' = table w \<and> s3_objects w' = s3_objects w)"
proof (cases "same_hash (table w ds) (sha256_hex env raw)")
  case True
  with assms show ?thesis
    by (auto simp: put_if_new_enabled aws_okD called_def Let_def)
next
  case False
  with assms show ?thesis
    by (auto simp: put_if_new_enabled archive_eq aws_okD called_def Let_def same_hash_ledger_item)
qed

lemma process_dataset_ledger:
  assumes "ledger_enabled (ddb_table cfg)" and "aws_ok env"
    and "fetch_oecd env ds (key_path_of cfg ds) (last_n_obs cfg) (fmt cfg) w = (Inr (raw, url), w1)"
    and "process_dataset env cfg ds w = (r, w')"
  shows "same_hash (table w' ds) (sha256_hex env raw)
       \<and> (\<forall>d. d \<noteq> ds \<longrightarrow> table w' d = table w d)
       \<and> (same_hash (table w ds) (sha256_hex env raw) \<longrightarrow>
            r = AList.update ''dataset'' (PStr ds) (unchanged_result (sha256_hex env raw) url)
            \<and> table w' = table w \<and> s3_objects w' = s3_objects w)"
proof -
  note fr = fetch_oecd_frame [OF assms(3)]
  obtain r2 w2 where p: "put_if_new env ds url raw (s3_bucket cfg) (s3_prefix cfg) (fmt cfg)
         (gzip_output cfg) (ddb_table cfg) w1 = (r2, w2)"
    by (cases "put_if_new env ds url raw (s3_bucket cfg) (s3_prefix cfg) (fmt cfg)
         (gzip_output cfg) (ddb_table cfg) w1")
  note l = put_if_new_ledger [OF assms(1,2) p]
  from assms(3,4) p have w: "w' = w2"
    by (auto simp: process_dataset_def split: sum.splits)
  have u: "r = AList.update ''dataset'' (PStr ds) (unchanged_result (sha256_hex env raw) url)"
    if "r2 = Inr (unchanged_result (sha256_hex env raw) url)"
    using that assms(3,4) p by (simp add: process_dataset_def)
  from l fr w u show ?thesis by simp
qed


text \<open>A run with the ledger enabled leaves the digest of each processed dataset in the ledger.\<close>

lemma handler_loop_records:
  assumes "ledger_enabled (ddb_table cfg)" and "aws_ok env"
    and "\<forall>ds \<in> set dss. \<forall>w. \<exists>url w1.
           fetch_oecd env ds (key_path_of cfg ds) (last_n_obs cfg) (fmt cfg) w = (Inr (payload ds, url), w1)"
    and "handler_loop env cfg dss [] w = (rs, w')"
    and "\<forall>d \<in> S. same_hash (table w d) (sha256_hex env (payload d))"
  shows "\<forall>d \<in> S \<union> set dss. same_hash (table w' d) (sha256_hex env (payload d))"
  using assms(3,4,5)
proof (induction dss arbitrary: w rs w' S)
  case Nil
  then show ?case by simp
next
  case (Cons ds rest)
  obtain r w1 where p: "process_dataset env cfg ds w = (r, w1)" by (cases "process_dataset env cfg ds w")
  obtain rs1 w2 where l: "handler_loop env cfg rest [] w1 = (rs1, w2)"
    by (cases "handler_loop env cfg rest [] w1")
  from Cons.prems(2) p l have w': "w' = w2"
    by (simp add: handler_loop_Cons del: handler_loop.simps)
  from Cons.prems(1) have "\<exists>url wf.
      fetch_oecd env ds (key_path_of cfg ds) (last_n_obs cfg) (fmt cfg) w = (Inr (payload ds, url), wf)"
    by simp
  then obtain url wf where
    f: "fetch_oecd env ds (key_path_of cfg ds) (last_n_obs cfg) (fmt cfg) w = (Inr (payload ds, url), wf)"
    by blast
  note pl = process_dataset_ledger [OF assms(1,2) f p]
  have inv: "\<forall>d \<in> insert ds S. same_hash (table w1 d) (sha256_hex env (payload d))"
  proof
    fix d assume "d \<in> insert ds S"
    then show "same_hash (table w1 d) (sha256_hex env (payload d))"
      using pl Cons.prems(3) by (cases "d = ds") auto
  qed
  have rest: "\<forall>ds \<in> set rest. \<forall>w. \<exists>url w1.
           fetch_oecd env ds (key_path_of cfg ds) (last_n_obs cfg) (fmt cfg) w = (Inr (payload ds, url), w1)"
    using Cons.prems(1) by simp
  from Cons.IH [OF rest l inv] show ?case
    unfolding w' by simp
qed

text \<open>A run on a ledger that holds the digest of every dataset's payload changes nothing.\<close>

lemma handler_loop_unchanged:
  assumes "ledger_enabled (ddb_table cfg)" and "aws_ok env"
    and "\<forall>ds \<in> set dss. \<forall>w. \<exists>url w1.
           fetch_oecd env ds (key_path_of cfg ds) (last_n_obs cfg) (fmt cfg) w = (Inr (payload ds, url), w1)"
    and "handler_loop env cfg dss [] w = (rs, w')"
    and "\<forall>d \<in> set dss. same_hash (table w d) (sha256_hex env (payload d))"
  shows "table w' = table w \<and> s3_objects w' = s3_objects w
       \<and> list_all2 (\<lambda>ds r. \<exists>url. r = AList.update ''dataset'' (PStr ds)
                       (unchanged_result (sha256_hex env (payload ds)) url)) dss rs"
  using assms(3,4,5)
proof (induction dss arbitrary: w rs w')
  case Nil
  then show ?case by simp
next
  case (Cons ds rest)
  obtain r w1 where p: "process_dataset env cfg ds w = (r, w1)" by (cases "process_dataset env cfg ds w")
  obtain rs1 w2 where l: "handler_loop env cfg rest [] w1 = (rs1, w2)"
    by (cases "handler_loop env cfg rest [] w1")
  from Cons.prems(2) p l have w': "w' = w2" "rs = r # rs1"
    by (simp_all add: handler_loop_Cons del: handler_loop.simps)
  from Cons.prems(1) have "\<exists>url wf.
      fetch_oecd env ds (key_path_of cfg ds) (last_n_obs cfg) (fmt cfg) w = (Inr (payload ds, url), wf)"
    by simp
  then obtain url wf where
    f: "fetch_oecd env ds (key_path_of cfg ds) (last_n_obs cfg) (fmt cfg) w = (Inr (payload ds, url), wf)"
    by blast
  from process_dataset_ledger [OF assms(1,2) f p] Cons.prems(3)
  have r: "r = AList.update ''dataset'' (PStr ds) (unchanged_result (sha256_hex env (payload ds)) url)"
    and t: "table w1 = table w" and s: "s3_objects w1 = s3_objects w"
    by simp_all
  have rest: "\<forall>ds \<in> set rest. \<forall>w. \<exists>url w1.
           fetch_oecd env ds (key_path_of cfg ds) (last_n_obs cfg) (fmt cfg) w = (Inr (payload ds, url), w1)"
    using Cons.prems(1) by simp
  have inv: "\<forall>d \<in> set rest. same_hash (table w1 d) (sha256_hex env (payload d))"
    using Cons.prems(3) t by simp
  from Cons.IH [OF rest l inv] r t s show ?case
    unfolding w' by auto
qed

lemma make_report_all_unchanged:
  assumes "\<forall>r \<in> set rs. \<exists>ds h u. r = AList.update ''dataset'' (PStr ds) (unchanged_result h u)"
  shows "make_report rs =
     \<lparr>statusCode = 200, summary_of = \<lparr>stored = 0, unchanged = length rs, errors = 0\<rparr>, results = rs\<rparr>"
proof -
  have 1: "filter is_ok rs = rs" using assms by (auto simp: filter_id_conv unchanged_facts)
  have 2: "filter is_err rs = []" using assms by (auto simp: filter_empty_conv unchanged_facts)
  have 3: "filter (\<lambda>r. truthy (map_of r ''stored'')) rs = []"
    using assms by (auto simp: filter_empty_conv unchanged_facts)
  have 4: "filter (\<lambda>r. map_of r ''reason'' = Some (PStr ''unchanged'')) rs = rs"
    using assms by (auto simp: filter_id_conv unchanged_facts)
  show ?thesis
    unfolding make_report_def Let_def 1 2 3 4 by simp
qed

text \<open>
  Claim C7, amended. With the ledger enabled and no AWS call raising: if every fetch of a
  configured dataset succeeds and returns the payload of that dataset (no upstream
  change), then after any first run a second run reports every dataset unchanged (one
  result per dataset, \<^verbatim>\<open>stored: False\<close>, \<^verbatim>\<open>reason: "unchanged"\<close>; summary 0 stored, all
  unchanged, 0 errors; status 200), writes no object to S3 and leaves the ledger as it
  was.
\<close>

theorem C7_second_run_unchanged:
  assumes "ledger_enabled (ddb_table cfg)" and "aws_ok env"
    and "\<forall>ds \<in> set (datasets cfg). \<forall>w. \<exists>url w1.
           fetch_oecd env ds (key_path_of cfg ds) (last_n_obs cfg) (fmt cfg) w = (Inr (payload ds, url), w1)"
    and "lambda_handler env cfg w0 = (rep1, w1)"
    and "lambda_handler env cfg w1 = (rep2, w2)"
  shows "list_all2 (\<lambda>ds r. map_of r ''dataset'' = Some (PStr ds)
                      \<and> map_of r ''stored'' = Some (PBool False)
                      \<and> map_of r ''reason'' = Some (PStr ''unchanged'')) (datasets cfg) (results rep2)
       \<and> summary_of rep2 = \<lparr>stored = 0, unchanged = length (datasets cfg), errors = 0\<rparr>
       \<and> statusCode rep2 = 200
       \<and> s3_objects w2 = s3_objects w1 \<and> table w2 = table w1"
proof -
  obtain rs1 where l1: "handler_loop env cfg (datasets cfg) [] w0 = (rs1, w1)"
    using assms(4) by (auto simp: lambda_handler_def split: prod.splits)
  obtain rs2 where l2: "handler_loop env cfg (datasets cfg) [] w1 = (rs2, w2)"
    and rep2: "rep2 = make_report rs2"
    using assms(5) by (auto simp: lambda_handler_def split: prod.splits)
  from handler_loop_records [OF assms(1,2,3) l1, of "{}"]
  have inv: "\<forall>d \<in> set (datasets cfg). same_hash (table w1 d) (sha256_hex env (payload d))"
    by simp
  note u = handler_loop_unchanged [OF assms(1,2,3) l2 inv]
  from u have all: "list_all2 (\<lambda>ds r. \<exists>url. r = AList.update ''dataset'' (PStr ds)
                       (unchanged_result (sha256_hex env (payload ds)) url)) (datasets cfg) rs2"
    by simp
  then have shape: "list_all2 (\<lambda>ds r. map_of r ''dataset'' = Some (PStr ds)
                      \<and> map_of r ''stored'' = Some (PBool False)
                      \<and> map_of r ''reason'' = Some (PStr ''unchanged'')) (datasets cfg) rs2"
    by (rule list_all2_mono) (auto simp: unchanged_facts)
  from all have "\<forall>r \<in> set rs2. \<exists>ds h u. r = AList.update ''dataset'' (PStr ds) (unchanged_result h u)"
    by (auto simp: list_all2_conv_all_nth in_set_conv_nth) blast
  from make_report_all_unchanged [OF this] list_all2_lengthD [OF all]
  have rep: "rep2 = \<lparr>statusCode = 200,
      summary_of = \<lparr>stored = 0, unchanged = length (datasets cfg), errors = 0\<rparr>, results = rs2\<rparr>"
    by (simp add: rep2)
  from shape u show ?thesis
    by (simp add: rep)
qed


text \<open>The number of objects written by a run is the number of its stored results.\<close>

lemma handler_loop_s3_count:
  "handler_loop env cfg dss [] w = (rs, w') \<Longrightarrow>
   length (s3_objects w') = length (s3_objects w) + length (filter stored_shape rs)"
proof (induction dss arbitrary: w rs w')
  case Nil
  then show ?case by simp
next
  case (Cons ds rest)
  obtain r w1 where p: "process_dataset env cfg ds w = (r, w1)" by (cases "process_dataset env cfg ds w")
  obtain rs1 w2 where l: "handler_loop env cfg rest [] w1 = (rs1, w2)"
    by (cases "handler_loop env cfg rest [] w1")
  from Cons.prems p l have w': "w' = w2" "rs = r # rs1"
    by (simp_all add: handler_loop_Cons del: handler_loop.simps)
  from process_dataset_cases [OF p]
  have "length (s3_objects w1) = length (s3_objects w) + (if stored_shape r then 1 else 0)"
    by (auto simp: error_result_facts unchanged_facts stored_facts)
  with Cons.IH [OF l] show ?case
    unfolding w' by simp
qed

lemma demo_fetch:
  "fetch_oecd demo_env ds ''all'' 60 ''csv'' w =
     (Inr (demo_payload, url_lastN ds ''all'' 60 ''csv''),
      requested (url_lastN ds ''all'' 60 ''csv'') (w\<lparr>tick := Suc (tick w)\<rparr>))"
  by (rule fetch_first_accepted [where start = "(2023, 9, 3)"])
     (simp_all add: demo_env_simps demo_payload_length window_demo_120)

lemma demo_results_disabled:
  "fst (handler_loop demo_env (demo_cfg dss0 None) dss [] w) = map demo_stored dss"
proof (rule handler_loop_fst_map)
  fix ds w
  show "fst (process_dataset demo_env (demo_cfg dss0 None) ds w) = demo_stored ds"
    unfolding demo_stored_def
    by (subst process_stored_disabled [where flt = None])
       (simp_all add: demo_env_simps fun_eq_iff)
qed

text \<open>
  The claim C7 as it is written fails when the ledger is disabled: with no upstream
  change at all (every request returns the same payload), the second run reports both
  datasets stored and writes two more objects.
\<close>

theorem C7_counterexample:
  "let cfg = demo_cfg [''MEI'', ''EO''] None;
       run1 = lambda_handler demo_env cfg w_empty;
       run2 = lambda_handler demo_env cfg (snd run1)
   in results (fst run1) = [demo_stored ''MEI'', demo_stored ''EO'']
      \<and> results (fst run2) = [demo_stored ''MEI'', demo_stored ''EO'']
      \<and> summary_of (fst run2) = \<lparr>stored = 2, unchanged = 0, errors = 0\<rparr>
      \<and> length (s3_objects (snd run1)) = 2 \<and> length (s3_objects (snd run2)) = 4"
proof -
  define cfg where "cfg = demo_cfg [''MEI'', ''EO''] None"
  define run1 where "run1 = lambda_handler demo_env cfg w_empty"
  define run2 where "run2 = lambda_handler demo_env cfg (snd run1)"
  have rs: "fst (handler_loop demo_env cfg (datasets cfg) [] w) = [demo_stored ''MEI'', demo_stored ''EO'']" for w
    unfolding cfg_def by (simp add: demo_results_disabled demo_cfg_simps del: handler_loop.simps)
  have sn: "snd (lambda_handler demo_env cfg w) = snd (handler_loop demo_env cfg (datasets cfg) [] w)" for w
    by (simp add: lambda_handler_def split: prod.splits)
  have hl: "handler_loop demo_env cfg (datasets cfg) [] w
      = ([demo_stored ''MEI'', demo_stored ''EO''], snd (handler_loop demo_env cfg (datasets cfg) [] w))" for w
    using rs [of w] by (metis prod.collapse)
  have cnt: "length (s3_objects (snd (lambda_handler demo_env cfg w))) = length (s3_objects w) + 2" for w
    using handler_loop_s3_count [OF hl [of w]]
    by (simp add: sn demo_stored_def stored_facts del: handler_loop.simps)
  have rep: "fst (lambda_handler demo_env cfg w) = make_report [demo_stored ''MEI'', demo_stored ''EO'']" for w
    by (simp add: lambda_handler_fst rs del: handler_loop.simps)
  have "results (fst run1) = [demo_stored ''MEI'', demo_stored ''EO'']
      \<and> results (fst run2) = [demo_stored ''MEI'', demo_stored ''EO'']
      \<and> summary_of (fst run2) = \<lparr>stored = 2, unchanged = 0, errors = 0\<rparr>
      \<and> length (s3_objects (snd run1)) = 2 \<and> length (s3_objects (snd run2)) = 4"
    unfolding run1_def run2_def
    by (simp add: rep cnt results_make_report w_empty_simps)
       (simp add: make_report_def Let_def demo_stored_facts)
  then show ?thesis
    unfolding Let_def cfg_def [symmetric] run1_def [symmetric] run2_def [symmetric] .
qed

text \<open>The same two runs with the ledger enabled.\<close>

theorem C7_second_run_unchanged_witness:
  "let cfg = demo_cfg [''MEI'', ''EO''] (Some ''OECDIngestState'');
       run1 = lambda_handler demo_env cfg w_empty;
       run2 = lambda_handler demo_env cfg (snd run1)
   in ledger_enabled (ddb_table cfg) \<and> aws_ok demo_env
      \<and> map (\<lambda>r. map_of r ''reason'') (results (fst run2))
           = [Some (PStr ''unchanged''), Some (PStr ''unchanged'')]
      \<and> summary_of (fst run2) = \<lparr>stored = 0, unchanged = 2, errors = 0\<rparr>
      \<and> statusCode (fst run2) = 200
      \<and> s3_objects (snd run2) = s3_objects (snd run1) \<and> table (snd run2) = table (snd run1)"
proof -
  define cfg where "cfg = demo_cfg [''MEI'', ''EO''] (Some ''OECDIngestState'')"
  define run1 where "run1 = lambda_handler demo_env cfg w_empty"
  define run2 where "run2 = lambda_handler demo_env cfg (snd run1)"
  have en: "ledger_enabled (ddb_table cfg)"
    by (simp add: cfg_def demo_cfg_simps ledger_enabled_simps)
  have f: "\<forall>ds \<in> set (datasets cfg). \<forall>w. \<exists>url w1.
           fetch_oecd demo_env ds (key_path_of cfg ds) (last_n_obs cfg) (fmt cfg) w
             = (Inr ((\<lambda>ds. demo_payload) ds, url), w1)"
    by (simp add: cfg_def demo_cfg_simps demo_fetch)
  have 1: "lambda_handler demo_env cfg w_empty = (fst run1, snd run1)" by (simp add: run1_def)
  have 2: "lambda_handler demo_env cfg (snd run1) = (fst run2, snd run2)" by (simp add: run2_def)
  from C7_second_run_unchanged [OF en aws_ok_demo_env f 1 2]
  have l: "list_all2 (\<lambda>ds r. map_of r ''dataset'' = Some (PStr ds)
                      \<and> map_of r ''stored'' = Some (PBool False)
                      \<and> map_of r ''reason'' = Some (PStr ''unchanged'')) [''MEI'', ''EO''] (results (fst run2))"
    and s: "summary_of (fst run2) = \<lparr>stored = 0, unchanged = 2, errors = 0\<rparr>"
    and c: "statusCode (fst run2) = 200"
    and a: "s3_objects (snd run2) = s3_objects (snd run1)" "table (snd run2) = table (snd run1)"
    by (simp_all add: cfg_def demo_cfg_simps)
  from l have "map (\<lambda>r. map_of r ''reason'') (results (fst run2))
           = [Some (PStr ''unchanged''), Some (PStr ''unchanged'')]"
    by (auto simp: list_all2_Cons1)
  with en s c a show ?thesis
    unfolding Let_def cfg_def [symmetric] run1_def [symmetric] run2_def [symmetric]
    using aws_ok_demo_env by simp
qed

end
